theory Spec2Isabelle
  imports Main "HOL-Library.Multiset"
begin

section \<open>Data model (backend/src/types.ts)\<close>

text \<open>
  Strings are byte strings holding ASCII text. Numbers that the source keeps in JavaScript
  doubles (quantities, timestamps in milliseconds, display ranks) are integers here: the
  model covers the range in which doubles are exact.
  The TypeScript unions \<open>AreaIcon\<close> and \<open>AreaColor\<close> are erased at run time and
  never validated by the routes, so \<open>icon\<close> and \<open>color\<close> are plain strings.
\<close>

type_synonym StorageAreaId = string

record StorageArea =
  areaId :: StorageAreaId
  areaName :: string
  icon :: string
  color :: string
  order :: int

text \<open>
  A row of table \<open>items\<close>. \<open>openedAt\<close> and \<open>expiryDate\<close> are nullable columns:
  \<open>None\<close> is SQL NULL.
\<close>

record PantryItem =
  itemId :: string
  itemName :: string
  quantity :: int
  storageAreaId :: StorageAreaId
  createdAt :: int
  isOpened :: bool
  openedAt :: "int option"
  expiryDate :: "string option"

definition DEFAULT_STORAGE_AREAS :: "StorageArea list" where
  "DEFAULT_STORAGE_AREAS =
    [\<lparr>areaId = ''fridge'', areaName = ''Fridge'', icon = ''refrigerator'', color = ''cyan'', order = 0\<rparr>,
     \<lparr>areaId = ''freezer'', areaName = ''Freezer'', icon = ''snowflake'', color = ''blue'', order = 1\<rparr>,
     \<lparr>areaId = ''pantry'', areaName = ''Pantry'', icon = ''warehouse'', color = ''amber'', order = 2\<rparr>]"

section \<open>The database (backend/src/db.ts)\<close>

text \<open>
  The two tables are lists of rows in insertion (rowid) order. \<open>foreign_keys\<close> is the
  connection's foreign-key enforcement: the schema declares
  \<open>FOREIGN KEY (storage_area_id) REFERENCES storage_areas(id) ON DELETE CASCADE\<close>, and
  whether SQLite enforces it is a setting of the SQLite build and connection that db.ts
  leaves at its default.
\<close>

record db =
  storage_areas :: "StorageArea list"
  items :: "PantryItem list"
  foreign_keys :: bool

datatype error = ValidationError | NotFound | InternalError

text \<open>
  What a handler reads from outside the request and the database: the result of
  \<open>generateId()\<close>, of \<open>Date.now()\<close>, the local midnight of the current day in
  milliseconds (\<open>new Date()\<close> after \<open>setHours(0, 0, 0, 0)\<close>), and the built-ins
  \<open>new Date(s).getTime()\<close> (\<open>None\<close> for an invalid date, whose time value is NaN) and
  \<open>new Date(t).toISOString().split('T')[0]\<close>.
\<close>

record env =
  generateId :: string
  dateNow :: int
  today :: int
  parseDate :: "string \<Rightarrow> int option"
  toISODate :: "int \<Rightarrow> string"

subsection \<open>SQL and JavaScript built-ins\<close>

text \<open>SQLite's \<open>LOWER\<close> folds the ASCII letters only.\<close>

definition lower_char :: "char \<Rightarrow> char" where
  "lower_char c =
    (let n = (of_char c :: nat) in if 65 \<le> n \<and> n \<le> 90 then char_of (n + 32) else c)"

definition LOWER :: "string \<Rightarrow> string" where
  "LOWER s = map lower_char s"

text \<open>\<open>String.prototype.trim\<close> on ASCII text: tab, line feed, vertical tab, form feed,
  carriage return and space are removed from both ends.\<close>

definition is_space :: "char \<Rightarrow> bool" where
  "is_space c = ((of_char c :: nat) \<in> {9, 10, 11, 12, 13, 32})"

definition trim :: "string \<Rightarrow> string" where
  "trim s = rev (dropWhile is_space (rev (dropWhile is_space s)))"

text \<open>\<open>x || null\<close> on an optional string: undefined, null and the empty string are falsy.\<close>

definition or_null :: "string option \<Rightarrow> string option" where
  "or_null e = (case e of None \<Rightarrow> None | Some s \<Rightarrow> if s = [] then None else Some s)"

text \<open>SQL \<open>a = b\<close> inside a WHERE clause: a comparison with NULL is not true.\<close>

definition sql_eq :: "string option \<Rightarrow> string option \<Rightarrow> bool" where
  "sql_eq a b = (case (a, b) of (Some x, Some y) \<Rightarrow> x = y | _ \<Rightarrow> False)"

text \<open>\<open>Math.ceil(a / b)\<close> for a positive \<open>b\<close>.\<close>

definition ceil_div :: "int \<Rightarrow> int \<Rightarrow> int" where
  "ceil_div a b = - ((- a) div b)"

subsection \<open>Item queries\<close>

definition getById :: "db \<Rightarrow> string \<Rightarrow> PantryItem option" where
  "getById d i = find (\<lambda>r. itemId r = i) (items d)"

text \<open>\<open>findMergeable\<close>: the first row that satisfies the WHERE clause (\<open>LIMIT 1\<close>).\<close>

definition findMergeable :: "db \<Rightarrow> StorageAreaId \<Rightarrow> string \<Rightarrow> string option \<Rightarrow> PantryItem option" where
  "findMergeable d sa nm e =
    find (\<lambda>r. storageAreaId r = sa
            \<and> LOWER (itemName r) = LOWER nm
            \<and> \<not> isOpened r
            \<and> (sql_eq (expiryDate r) e \<or> (expiryDate r = None \<and> e = None)))
         (items d)"

text \<open>\<open>insert\<close> fails (\<open>None\<close>: SQLite raises a constraint error) on a duplicate primary
  key and, with foreign keys enforced, on an unknown storage area.\<close>

definition insertItem :: "PantryItem \<Rightarrow> db \<Rightarrow> db option" where
  "insertItem r d =
    (if itemId r \<in> set (map itemId (items d)) then None
     else if foreign_keys d \<and> storageAreaId r \<notin> set (map areaId (storage_areas d)) then None
     else Some (d\<lparr>items := items d @ [r]\<rparr>))"

definition updateQuantity :: "string \<Rightarrow> int \<Rightarrow> db \<Rightarrow> db" where
  "updateQuantity i q d =
    d\<lparr>items := map (\<lambda>r. if itemId r = i then r\<lparr>quantity := q\<rparr> else r) (items d)\<rparr>"

definition updateItem :: "string \<Rightarrow> string \<Rightarrow> int \<Rightarrow> bool \<Rightarrow> int option \<Rightarrow> string option \<Rightarrow> db \<Rightarrow> db" where
  "updateItem i nm q opened oat e d =
    d\<lparr>items := map (\<lambda>r. if itemId r = i
                          then r\<lparr>itemName := nm, quantity := q, isOpened := opened,
                                 openedAt := oat, expiryDate := e\<rparr>
                          else r) (items d)\<rparr>"

definition deleteItemRow :: "string \<Rightarrow> db \<Rightarrow> db" where
  "deleteItemRow i d = d\<lparr>items := filter (\<lambda>r. itemId r \<noteq> i) (items d)\<rparr>"

definition deleteByStorageArea :: "StorageAreaId \<Rightarrow> db \<Rightarrow> db" where
  "deleteByStorageArea a d = d\<lparr>items := filter (\<lambda>r. storageAreaId r \<noteq> a) (items d)\<rparr>"

subsection \<open>Storage area queries\<close>

text \<open>\<open>getAll\<close>: \<open>ORDER BY "order" ASC\<close>; rows of equal rank stay in table order.\<close>

definition getAllAreas :: "db \<Rightarrow> StorageArea list" where
  "getAllAreas d = sort_key order (storage_areas d)"

definition getAreaById :: "db \<Rightarrow> StorageAreaId \<Rightarrow> StorageArea option" where
  "getAreaById d a = find (\<lambda>x. areaId x = a) (storage_areas d)"

definition insertArea :: "StorageArea \<Rightarrow> db \<Rightarrow> db option" where
  "insertArea x d =
    (if areaId x \<in> set (map areaId (storage_areas d)) then None
     else Some (d\<lparr>storage_areas := storage_areas d @ [x]\<rparr>))"

definition updateAreaRow :: "StorageArea \<Rightarrow> db \<Rightarrow> db" where
  "updateAreaRow u d =
    d\<lparr>storage_areas := map (\<lambda>x. if areaId x = areaId u
                                  then x\<lparr>areaName := areaName u, icon := icon u,
                                         color := color u, order := order u\<rparr>
                                  else x) (storage_areas d)\<rparr>"

text \<open>\<open>DELETE FROM storage_areas WHERE id = ?\<close>; with foreign keys enforced the
  deletion cascades to the items of the area.\<close>

definition deleteAreaRow :: "StorageAreaId \<Rightarrow> db \<Rightarrow> db" where
  "deleteAreaRow a d =
    d\<lparr>storage_areas := filter (\<lambda>x. areaId x \<noteq> a) (storage_areas d),
      items := (if foreign_keys d then filter (\<lambda>r. storageAreaId r \<noteq> a) (items d)
                else items d)\<rparr>"

text \<open>\<open>SELECT MAX("order")\<close>: NULL on the empty table.\<close>

definition getMaxOrder :: "db \<Rightarrow> int option" where
  "getMaxOrder d =
    (case map order (storage_areas d) of [] \<Rightarrow> None | x # xs \<Rightarrow> Some (fold max xs x))"

definition updateOrder :: "StorageAreaId \<Rightarrow> int \<Rightarrow> db \<Rightarrow> db" where
  "updateOrder a k d =
    d\<lparr>storage_areas := map (\<lambda>x. if areaId x = a then x\<lparr>order := k\<rparr> else x) (storage_areas d)\<rparr>"

text \<open>\<open>reorderAreas\<close>: \<open>areaIds.forEach((id, index) => updateOrder.run({id, order: index}))\<close>
  in one transaction; no statement of it can fail.\<close>

definition reorderAreas :: "StorageAreaId list \<Rightarrow> db \<Rightarrow> db" where
  "reorderAreas ids d = fold (\<lambda>(index, a). updateOrder a (int index)) (enumerate 0 ids) d"

text \<open>Module initialisation: the three default areas are inserted, in one transaction,
  when the table is empty. \<open>None\<close>: an insertion raised and the transaction rolled back.\<close>

fun insertMany :: "StorageArea list \<Rightarrow> db \<Rightarrow> db option" where
  "insertMany [] d = Some d"
| "insertMany (x # xs) d = (case insertArea x d of None \<Rightarrow> None | Some d' \<Rightarrow> insertMany xs d')"

definition initDb :: "db \<Rightarrow> db option" where
  "initDb d = (if length (storage_areas d) = 0 then insertMany DEFAULT_STORAGE_AREAS d else Some d)"

section \<open>Item routes (the router of /api/items)\<close>

text \<open>
  The body of \<open>POST /api/items\<close>. A missing \<open>name\<close> or \<open>storageAreaId\<close> is the empty
  string and a missing \<open>quantity\<close> is 0: the source rejects both forms by the same branch.
  \<open>req_expiryDate = None\<close> is an absent (or null) \<open>expiryDate\<close>.
\<close>

record create_req =
  req_name :: string
  req_quantity :: int
  req_storageAreaId :: StorageAreaId
  req_expiryDate :: "string option"

text \<open>The record that \<open>POST /api/items\<close> builds when nothing is mergeable.\<close>

definition newItem :: "env \<Rightarrow> create_req \<Rightarrow> PantryItem" where
  "newItem e rq =
    \<lparr>itemId = generateId e, itemName = trim (req_name rq), quantity = req_quantity rq,
     storageAreaId = req_storageAreaId rq, createdAt = dateNow e, isOpened = False,
     openedAt = None, expiryDate = req_expiryDate rq\<rparr>"

text \<open>Every handler returns its response and the database it leaves.\<close>

definition createOrMergeItem :: "env \<Rightarrow> create_req \<Rightarrow> db \<Rightarrow> (error + PantryItem) \<times> db" where
  "createOrMergeItem e rq d =
    (let trimmedName = trim (req_name rq) in
     if trimmedName = [] then (Inl ValidationError, d)
     else if req_quantity rq = 0 \<or> req_quantity rq < 1 then (Inl ValidationError, d)
     else if req_storageAreaId rq = [] then (Inl ValidationError, d)
     else
       (case findMergeable d (req_storageAreaId rq) trimmedName (or_null (req_expiryDate rq)) of
          Some existingItem \<Rightarrow>
            (let newQuantity = quantity existingItem + req_quantity rq;
                 d' = updateQuantity (itemId existingItem) newQuantity d
             in case getById d' (itemId existingItem) of
                  Some updated \<Rightarrow> (Inr updated, d')
                | None \<Rightarrow> (Inl InternalError, d'))
        | None \<Rightarrow>
            (case insertItem (newItem e rq) d of
               Some d' \<Rightarrow> (Inr (newItem e rq), d')
             | None \<Rightarrow> (Inl InternalError, d))))"

text \<open>\<open>GET /api/items/:id\<close>.\<close>

definition getItem :: "string \<Rightarrow> db \<Rightarrow> error + PantryItem" where
  "getItem i d = (case getById d i of None \<Rightarrow> Inl NotFound | Some item \<Rightarrow> Inr item)"

text \<open>\<open>PUT /api/items/:id/quantity\<close>; \<open>Inr None\<close> is the 204 response of a deletion.\<close>

definition adjustQuantity :: "string \<Rightarrow> int \<Rightarrow> db \<Rightarrow> (error + PantryItem option) \<times> db" where
  "adjustQuantity i q d =
    (case getById d i of
       None \<Rightarrow> (Inl NotFound, d)
     | Some existing \<Rightarrow>
         if q < 1 then (Inr None, deleteItemRow i d)
         else (let d' = updateQuantity i q d
               in case getById d' i of
                    Some updated \<Rightarrow> (Inr (Some updated), d')
                  | None \<Rightarrow> (Inl InternalError, d')))"

text \<open>The expiry recomputation of \<open>PUT /api/items/:id/open\<close>: the remaining days are
  halved, but not below one day.\<close>

definition newExpiryDate :: "env \<Rightarrow> PantryItem \<Rightarrow> string option" where
  "newExpiryDate e item =
    (case expiryDate item of
       None \<Rightarrow> None
     | Some s \<Rightarrow>
         if s = [] then Some s
         else (case parseDate e s of
                 None \<Rightarrow> Some s
               | Some expiry \<Rightarrow>
                   (let daysLeft = ceil_div (expiry - today e) (1000 * 60 * 60 * 24) in
                    if daysLeft > 1
                    then (let newDaysLeft = max 1 (daysLeft div 2);
                              newExpiryTime = today e + newDaysLeft * 24 * 60 * 60 * 1000
                          in Some (toISODate e newExpiryTime))
                    else Some s)))"

text \<open>The record that the split branch of \<open>PUT /api/items/:id/open\<close> inserts.\<close>

definition openedItem :: "env \<Rightarrow> PantryItem \<Rightarrow> int \<Rightarrow> PantryItem" where
  "openedItem e item quantityToOpen =
    \<lparr>itemId = generateId e, itemName = itemName item, quantity = quantityToOpen,
     storageAreaId = storageAreaId item, createdAt = createdAt item, isOpened = True,
     openedAt = Some (dateNow e), expiryDate = newExpiryDate e item\<rparr>"

text \<open>\<open>PUT /api/items/:id/open\<close>. The split branch is not a transaction: when the
  insertion raises, the reduced quantity of the original stays written.\<close>

definition openItem :: "env \<Rightarrow> string \<Rightarrow> int \<Rightarrow> db \<Rightarrow> (error + PantryItem list) \<times> db" where
  "openItem e i quantityToOpen d =
    (case getById d i of
       None \<Rightarrow> (Inl NotFound, d)
     | Some item \<Rightarrow>
         if quantityToOpen \<ge> quantity item
         then (let d' = updateItem i (itemName item) (quantity item) True (Some (dateNow e))
                           (or_null (newExpiryDate e item)) d
               in case getById d' i of
                    Some updated \<Rightarrow> (Inr [updated], d')
                  | None \<Rightarrow> (Inl InternalError, d'))
         else (let d1 = updateQuantity i (quantity item - quantityToOpen) d
               in case insertItem (openedItem e item quantityToOpen) d1 of
                    None \<Rightarrow> (Inl InternalError, d1)
                  | Some d2 \<Rightarrow>
                      (case getById d2 i of
                         Some updatedOriginal \<Rightarrow>
                           (Inr [updatedOriginal, openedItem e item quantityToOpen], d2)
                       | None \<Rightarrow> (Inl InternalError, d2))))"

definition deleteItem :: "string \<Rightarrow> db \<Rightarrow> (error + unit) \<times> db" where
  "deleteItem i d =
    (case getById d i of
       None \<Rightarrow> (Inl NotFound, d)
     | Some existing \<Rightarrow> (Inr (), deleteItemRow i d))"

section \<open>Storage area routes (the router of /api/storage-areas)\<close>

definition createArea :: "env \<Rightarrow> string \<Rightarrow> string \<Rightarrow> string \<Rightarrow> db \<Rightarrow> (error + StorageArea) \<times> db" where
  "createArea e nm ic co d =
    (if trim nm = [] then (Inl ValidationError, d)
     else (let ord = (case getMaxOrder d of None \<Rightarrow> - 1 | Some m \<Rightarrow> m) + 1;
               newArea = \<lparr>areaId = generateId e, areaName = trim nm, icon = ic, color = co,
                          order = ord\<rparr>
           in case insertArea newArea d of
                Some d' \<Rightarrow> (Inr newArea, d')
              | None \<Rightarrow> (Inl InternalError, d)))"

text \<open>The body of \<open>PUT /api/storage-areas/:id\<close>, a \<open>Partial<StorageArea>\<close>: \<open>None\<close> is
  an omitted field. \<open>name?.trim() || existing.name\<close> and the \<open>||\<close> on icon and color
  keep the stored value for an omitted or empty field; \<open>order ?? existing.order\<close> keeps
  it for an omitted one only.\<close>

record update_area_req =
  upd_name :: "string option"
  upd_icon :: "string option"
  upd_color :: "string option"
  upd_order :: "int option"

definition or_else :: "string option \<Rightarrow> string \<Rightarrow> string" where
  "or_else v dflt = (case v of None \<Rightarrow> dflt | Some s \<Rightarrow> if s = [] then dflt else s)"

definition updateArea :: "StorageAreaId \<Rightarrow> update_area_req \<Rightarrow> db \<Rightarrow> (error + StorageArea) \<times> db" where
  "updateArea a rq d =
    (case getAreaById d a of
       None \<Rightarrow> (Inl NotFound, d)
     | Some existing \<Rightarrow>
         (let updated = \<lparr>areaId = a,
                         areaName = or_else (map_option trim (upd_name rq)) (areaName existing),
                         icon = or_else (upd_icon rq) (icon existing),
                         color = or_else (upd_color rq) (color existing),
                         order = (case upd_order rq of None \<Rightarrow> order existing | Some k \<Rightarrow> k)\<rparr>
          in (Inr updated, updateAreaRow updated d)))"

definition deleteArea :: "StorageAreaId \<Rightarrow> db \<Rightarrow> (error + unit) \<times> db" where
  "deleteArea a d =
    (case getAreaById d a of
       None \<Rightarrow> (Inl NotFound, d)
     | Some existing \<Rightarrow>
         (let d1 = deleteByStorageArea a d;
              d2 = deleteAreaRow a d1;
              remaining = getAllAreas d2;
              ids = map areaId remaining
          in (Inr (), if length ids > 0 then reorderAreas ids d2 else d2)))"

text \<open>\<open>PUT /api/storage-areas/reorder/batch\<close> with an array of ids.\<close>

definition reorderBatch :: "StorageAreaId list \<Rightarrow> db \<Rightarrow> (error + StorageArea list) \<times> db" where
  "reorderBatch ids d = (let d' = reorderAreas ids d in (Inr (getAllAreas d'), d'))"

section \<open>Auxiliary functions\<close>

text \<open>The position of the first occurrence of an element in a list.\<close>

fun index_of :: "'a list \<Rightarrow> 'a \<Rightarrow> nat" where
  "index_of [] a = 0"
| "index_of (x # xs) a = (if x = a then 0 else Suc (index_of xs a))"

text \<open>What a run of \<open>updateOrder\<close> statements does to one row, and what
  \<open>reorderAreas\<close> does to a row whose id occurs in a duplicate-free id list.\<close>

definition renumber :: "(nat \<times> StorageAreaId) list \<Rightarrow> StorageArea \<Rightarrow> StorageArea" where
  "renumber ps x = fold (\<lambda>(k, a) y. if areaId y = a then y\<lparr>order := int k\<rparr> else y) ps x"

definition by_index :: "StorageAreaId list \<Rightarrow> StorageArea \<Rightarrow> StorageArea" where
  "by_index ids x = x\<lparr>order := int (index_of ids (areaId x))\<rparr>"

section \<open>Predicates of the specification\<close>

text \<open>A request that passes the three checks of \<open>POST /api/items\<close>.\<close>

definition valid_create :: "create_req \<Rightarrow> bool" where
  "valid_create rq \<longleftrightarrow>
     trim (req_name rq) \<noteq> [] \<and> 1 \<le> req_quantity rq \<and> req_storageAreaId rq \<noteq> []"

text \<open>The mergeable key as the specification words it: same storage area, unopened,
  case-insensitively equal name, equal expiry date with both absent counting as equal.\<close>

definition mergeable_as_claimed :: "create_req \<Rightarrow> PantryItem \<Rightarrow> bool" where
  "mergeable_as_claimed rq r \<longleftrightarrow>
     storageAreaId r = req_storageAreaId rq
     \<and> \<not> isOpened r
     \<and> LOWER (itemName r) = LOWER (trim (req_name rq))
     \<and> expiryDate r = req_expiryDate rq"

text \<open>The same key with the requested expiry date read as absent when it is the empty
  string.\<close>

definition mergeable_with :: "create_req \<Rightarrow> PantryItem \<Rightarrow> bool" where
  "mergeable_with rq r \<longleftrightarrow>
     storageAreaId r = req_storageAreaId rq
     \<and> \<not> isOpened r
     \<and> LOWER (itemName r) = LOWER (trim (req_name rq))
     \<and> expiryDate r = or_null (req_expiryDate rq)"

text \<open>The ranks of the areas are a permutation of \<open>0..count-1\<close>.\<close>

definition orders_permutation :: "StorageArea list \<Rightarrow> bool" where
  "orders_permutation as \<longleftrightarrow> mset (map order as) = mset (map int [0..<length as])"

text \<open>The invariant of table \<open>storage_areas\<close>: the primary key is unique and the ranks
  are a permutation of \<open>0..count-1\<close>.\<close>

definition areas_inv :: "db \<Rightarrow> bool" where
  "areas_inv d \<longleftrightarrow> distinct (map areaId (storage_areas d)) \<and> orders_permutation (storage_areas d)"

section \<open>Example states\<close>

text \<open>The database right after initialisation, with foreign keys enforced.\<close>

definition ex_db :: db where
  "ex_db = \<lparr>storage_areas = DEFAULT_STORAGE_AREAS, items = [], foreign_keys = True\<rparr>"

text \<open>An environment of a process running in UTC on 2024-06-01 (local midnight at
  1717200000000 ms); the two date built-ins are tabulated at the dates the examples use.\<close>

definition ex_env :: "string \<Rightarrow> int \<Rightarrow> env" where
  "ex_env i t =
    \<lparr>generateId = i, dateNow = t, today = 1717200000000,
     parseDate = (\<lambda>s. if s = ''2024-06-11'' then Some 1718064000000
                       else if s = ''2024-06-02'' then Some 1717286400000 else None),
     toISODate = (\<lambda>t. if t = 1717632000000 then ''2024-06-06'' else ''1970-01-01'')\<rparr>"

definition ex_item :: "string \<Rightarrow> string \<Rightarrow> int \<Rightarrow> string option \<Rightarrow> PantryItem" where
  "ex_item i nm q e =
    \<lparr>itemId = i, itemName = nm, quantity = q, storageAreaId = ''fridge'', createdAt = 1000,
     isOpened = False, openedAt = None, expiryDate = e\<rparr>"

text \<open>Four areas whose table order differs from their ranks, with one item in the
  fridge and one in the freezer.\<close>

definition ex_db3 :: db where
  "ex_db3 =
    \<lparr>storage_areas =
       [\<lparr>areaId = ''fridge'', areaName = ''Fridge'', icon = ''refrigerator'', color = ''cyan'', order = 2\<rparr>,
        \<lparr>areaId = ''freezer'', areaName = ''Freezer'', icon = ''snowflake'', color = ''blue'', order = 1\<rparr>,
        \<lparr>areaId = ''pantry'', areaName = ''Pantry'', icon = ''warehouse'', color = ''amber'', order = 3\<rparr>,
        \<lparr>areaId = ''cellar'', areaName = ''Cellar'', icon = ''box'', color = ''slate'', order = 0\<rparr>],
     items = [ex_item ''a'' ''Milk'' 3 None,
              (ex_item ''b'' ''Peas'' 1 None)\<lparr>storageAreaId := ''freezer''\<rparr>],
     foreign_keys = True\<rparr>"

text \<open>An environment of a process running nine hours east of UTC on 2024-06-01, at
  10:00 local time: its local midnight is 2024-05-31T15:00Z. Date strings parse to UTC
  midnight and an instant is formatted as its UTC date, as the two built-ins do.\<close>

definition ex_iso_date :: "int \<Rightarrow> string" where
  "ex_iso_date t =
    (let day = t div 86400000 in
     if day = 19874 then ''2024-05-31'' else if day = 19875 then ''2024-06-01''
     else if day = 19876 then ''2024-06-02'' else if day = 19877 then ''2024-06-03''
     else if day = 19878 then ''2024-06-04'' else if day = 19879 then ''2024-06-05''
     else if day = 19880 then ''2024-06-06'' else if day = 19881 then ''2024-06-07''
     else ''1970-01-01'')"

definition ex_env_east :: env where
  "ex_env_east =
    \<lparr>generateId = ''n1'', dateNow = 1717203600000, today = 1717167600000,
     parseDate = (\<lambda>s. if s = ''2024-06-11'' then Some 1718064000000
                       else if s = ''2024-06-02'' then Some 1717286400000 else None),
     toISODate = ex_iso_date\<rparr>"

section \<open>Lookup lemmas\<close>

lemma find_map_preserve:
  "(\<And>x. P (f x) = P x) \<Longrightarrow> find P (map f xs) = map_option f (find P xs)"
  by (induction xs) simp_all

lemma find_filter_none: "find P (filter (\<lambda>x. \<not> P x) xs) = None"
  by (induction xs) simp_all

section \<open>Quantity adjustment\<close>

text \<open>
  C6. \<open>PUT /api/items/:id/quantity\<close>: an unknown id is answered NotFound and the database
  is unchanged; a quantity below 1 deletes the row, answers the deletion without a record,
  and a later lookup of the id answers NotFound; any other quantity overwrites the stored
  quantity with exactly the given value, returns the updated record and changes no other
  field and no other row.
\<close>

theorem adjustQuantity_spec:
  "(getById d i = None \<longrightarrow> adjustQuantity i q d = (Inl NotFound, d))
   \<and> (getById d i \<noteq> None \<and> q < 1 \<longrightarrow>
        adjustQuantity i q d = (Inr None, d\<lparr>items := filter (\<lambda>r. itemId r \<noteq> i) (items d)\<rparr>)
        \<and> getItem i (snd (adjustQuantity i q d)) = Inl NotFound)
   \<and> (\<forall>r. getById d i = Some r \<and> 1 \<le> q \<longrightarrow>
        adjustQuantity i q d =
          (Inr (Some (r\<lparr>quantity := q\<rparr>)),
           d\<lparr>items := map (\<lambda>x. if itemId x = i then x\<lparr>quantity := q\<rparr> else x) (items d)\<rparr>)
        \<and> getItem i (snd (adjustQuantity i q d)) = Inr (r\<lparr>quantity := q\<rparr>))"
proof (intro conjI impI allI)
  assume "getById d i = None"
  then show "adjustQuantity i q d = (Inl NotFound, d)"
    by (simp add: adjustQuantity_def)
next
  assume a: "getById d i \<noteq> None \<and> q < 1"
  then show del: "adjustQuantity i q d = (Inr None, d\<lparr>items := filter (\<lambda>r. itemId r \<noteq> i) (items d)\<rparr>)"
    by (auto simp: adjustQuantity_def deleteItemRow_def)
  show "getItem i (snd (adjustQuantity i q d)) = Inl NotFound"
    by (simp add: del getItem_def getById_def find_filter_none)
next
  fix r
  assume a: "getById d i = Some r \<and> 1 \<le> q"
  let ?f = "\<lambda>x. if itemId x = i then x\<lparr>quantity := q\<rparr> else x"
  have idr: "itemId r = i"
    using a by (auto simp: getById_def find_Some_iff)
  have g: "getById (updateQuantity i q d) i = Some (r\<lparr>quantity := q\<rparr>)"
  proof -
    have "find (\<lambda>r. itemId r = i) (map ?f (items d)) = map_option ?f (find (\<lambda>r. itemId r = i) (items d))"
      by (rule find_map_preserve) simp
    then show ?thesis
      using a idr by (simp add: getById_def updateQuantity_def)
  qed
  show upd: "adjustQuantity i q d =
          (Inr (Some (r\<lparr>quantity := q\<rparr>)), d\<lparr>items := map ?f (items d)\<rparr>)"
    using a g by (simp add: adjustQuantity_def) (simp add: updateQuantity_def)
  show "getItem i (snd (adjustQuantity i q d)) = Inr (r\<lparr>quantity := q\<rparr>)"
    using g by (simp add: upd getItem_def) (simp add: updateQuantity_def)
qed

theorem adjustQuantity_spec_witness:
  "getById ex_db ''x'' = None \<and> adjustQuantity ''x'' 4 ex_db = (Inl NotFound, ex_db)
   \<and> getById (ex_db\<lparr>items := [ex_item ''a'' ''Milk'' 3 None]\<rparr>) ''a'' \<noteq> None \<and> (0::int) < 1
   \<and> getItem ''a'' (snd (adjustQuantity ''a'' 0 (ex_db\<lparr>items := [ex_item ''a'' ''Milk'' 3 None]\<rparr>))) = Inl NotFound
   \<and> getById (ex_db\<lparr>items := [ex_item ''a'' ''Milk'' 3 None]\<rparr>) ''a'' = Some (ex_item ''a'' ''Milk'' 3 None) \<and> (1::int) \<le> 7
   \<and> getItem ''a'' (snd (adjustQuantity ''a'' 7 (ex_db\<lparr>items := [ex_item ''a'' ''Milk'' 3 None]\<rparr>))) =
       Inr ((ex_item ''a'' ''Milk'' 3 None)\<lparr>quantity := 7\<rparr>)"
proof -
  let ?d = "ex_db\<lparr>items := [ex_item ''a'' ''Milk'' 3 None]\<rparr>"
  have h0: "getById ex_db ''x'' = None" by (simp add: getById_def ex_db_def)
  have h1: "getById ?d ''a'' = Some (ex_item ''a'' ''Milk'' 3 None)"
    by (simp add: getById_def ex_item_def)
  have h2: "getById ?d ''a'' \<noteq> None" using h1 by simp
  have n0: "(0::int) < 1" and n7: "(1::int) \<le> 7" by simp_all
  have c0: "adjustQuantity ''x'' 4 ex_db = (Inl NotFound, ex_db)"
    using adjustQuantity_spec [of ex_db "''x''" 4] h0 by blast
  have c1: "getItem ''a'' (snd (adjustQuantity ''a'' 0 ?d)) = Inl NotFound"
    using adjustQuantity_spec [of ?d "''a''" 0] h2 n0 by blast
  have c2: "getItem ''a'' (snd (adjustQuantity ''a'' 7 ?d)) = Inr ((ex_item ''a'' ''Milk'' 3 None)\<lparr>quantity := 7\<rparr>)"
    using adjustQuantity_spec [of ?d "''a''" 7] h1 n7 by blast
  show ?thesis using h0 h1 h2 n0 n7 c0 c1 c2 by blast
qed

section \<open>Opening with a non-positive quantity\<close>

text \<open>
  C9. The claim is that \<open>PUT /api/items/:id/open\<close> rejects a non-positive
  \<open>quantityToOpen\<close> and leaves the database as it was. The route has no such check: on an
  item of quantity 3, opening 0 inserts an opened row of quantity 0, and opening -2 raises
  the original to 5 and inserts an opened row of quantity -2.
\<close>

theorem openItem_nonpositive_mutates:
  "openItem (ex_env ''n1'' 5000) ''a'' 0 (ex_db\<lparr>items := [ex_item ''a'' ''Milk'' 3 None]\<rparr>) =
     (Inr [ex_item ''a'' ''Milk'' 3 None,
           (ex_item ''n1'' ''Milk'' 0 None)\<lparr>isOpened := True, openedAt := Some 5000\<rparr>],
      ex_db\<lparr>items := [ex_item ''a'' ''Milk'' 3 None,
                       (ex_item ''n1'' ''Milk'' 0 None)\<lparr>isOpened := True, openedAt := Some 5000\<rparr>]\<rparr>)
   \<and> openItem (ex_env ''n1'' 5000) ''a'' (- 2) (ex_db\<lparr>items := [ex_item ''a'' ''Milk'' 3 None]\<rparr>) =
     (Inr [ex_item ''a'' ''Milk'' 5 None,
           (ex_item ''n1'' ''Milk'' (- 2) None)\<lparr>isOpened := True, openedAt := Some 5000\<rparr>],
      ex_db\<lparr>items := [ex_item ''a'' ''Milk'' 5 None,
                       (ex_item ''n1'' ''Milk'' (- 2) None)\<lparr>isOpened := True, openedAt := Some 5000\<rparr>]\<rparr>)"
  by code_simp

section \<open>Creation with merge\<close>

lemma where_expiry_iff: "(sql_eq x e \<or> (x = None \<and> e = None)) = (x = e)"
  by (cases x; cases e; simp add: sql_eq_def)

lemma findMergeable_find:
  "findMergeable d (req_storageAreaId rq) (trim (req_name rq)) (or_null (req_expiryDate rq))
     = find (mergeable_with rq) (items d)"
proof -
  have "(\<lambda>r. storageAreaId r = req_storageAreaId rq
            \<and> LOWER (itemName r) = LOWER (trim (req_name rq))
            \<and> \<not> isOpened r
            \<and> (sql_eq (expiryDate r) (or_null (req_expiryDate rq))
                 \<or> (expiryDate r = None \<and> or_null (req_expiryDate rq) = None)))
        = mergeable_with rq"
    by (rule ext) (auto simp: mergeable_with_def where_expiry_iff)
  then show ?thesis by (simp add: findMergeable_def)
qed

lemma find_key_distinct:
  "distinct (map f xs) \<Longrightarrow> r \<in> set xs \<Longrightarrow> find (\<lambda>x. f x = f r) xs = Some r"
  by (induction xs) (auto simp: image_iff)

lemma getById_updateQuantity:
  assumes "getById d i = Some r"
  shows "getById (updateQuantity i q d) i = Some (r\<lparr>quantity := q\<rparr>)"
proof -
  let ?f = "\<lambda>x. if itemId x = i then x\<lparr>quantity := q\<rparr> else x"
  have "find (\<lambda>r. itemId r = i) (map ?f (items d)) = map_option ?f (find (\<lambda>r. itemId r = i) (items d))"
    by (rule find_map_preserve) simp
  moreover have "itemId r = i"
    using assms by (auto simp: getById_def find_Some_iff)
  ultimately show ?thesis
    using assms by (simp add: getById_def updateQuantity_def)
qed

lemma createOrMergeItem_merge:
  assumes v: "valid_create rq"
    and f: "find (mergeable_with rq) (items d) = Some r"
    and dist: "distinct (map itemId (items d))"
  shows "createOrMergeItem e rq d =
    (Inr (r\<lparr>quantity := quantity r + req_quantity rq\<rparr>),
     d\<lparr>items := map (\<lambda>x. if itemId x = itemId r then x\<lparr>quantity := quantity r + req_quantity rq\<rparr> else x)
                     (items d)\<rparr>)"
proof -
  have "r \<in> set (items d)"
    using f by (auto simp: find_Some_iff)
  then have "getById d (itemId r) = Some r"
    using dist by (simp add: getById_def find_key_distinct)
  then have g: "getById (updateQuantity (itemId r) (quantity r + req_quantity rq) d) (itemId r)
      = Some (r\<lparr>quantity := quantity r + req_quantity rq\<rparr>)"
    by (rule getById_updateQuantity)
  have q: "req_quantity rq \<noteq> 0" "\<not> req_quantity rq < 1"
    using v by (auto simp: valid_create_def)
  show ?thesis
    using v q f g
    by (simp add: createOrMergeItem_def findMergeable_find valid_create_def Let_def)
       (simp add: updateQuantity_def)
qed

lemma createOrMergeItem_new:
  assumes v: "valid_create rq"
    and f: "find (mergeable_with rq) (items d) = None"
  shows "createOrMergeItem e rq d =
    (case insertItem (newItem e rq) d of
       Some d' \<Rightarrow> (Inr (newItem e rq), d')
     | None \<Rightarrow> (Inl InternalError, d))"
proof -
  have q: "req_quantity rq \<noteq> 0" "\<not> req_quantity rq < 1"
    using v by (auto simp: valid_create_def)
  show ?thesis
    using v q f
    by (simp add: createOrMergeItem_def findMergeable_find valid_create_def Let_def newItem_def
          split: option.splits)
qed

lemma find_append_cases:
  "find P (xs @ ys) = (case find P xs of None \<Rightarrow> find P ys | Some x \<Rightarrow> Some x)"
  by (induction xs) simp_all

lemma insertItem_ok:
  "itemId r \<notin> set (map itemId (items d)) \<Longrightarrow>
   (foreign_keys d \<longrightarrow> storageAreaId r \<in> set (map areaId (storage_areas d))) \<Longrightarrow>
   insertItem r d = Some (d\<lparr>items := items d @ [r]\<rparr>)"
  by (auto simp: insertItem_def)

lemma createOrMergeItem_created:
  assumes v: "valid_create rq"
    and no: "find (mergeable_with rq) (items d) = None"
    and fresh: "generateId e \<notin> set (map itemId (items d))"
    and fk: "foreign_keys d \<longrightarrow> req_storageAreaId rq \<in> set (map areaId (storage_areas d))"
  shows "createOrMergeItem e rq d = (Inr (newItem e rq), d\<lparr>items := items d @ [newItem e rq]\<rparr>)"
proof -
  have "insertItem (newItem e rq) d = Some (d\<lparr>items := items d @ [newItem e rq]\<rparr>)"
    using fresh fk by (intro insertItem_ok) (simp_all add: newItem_def)
  then show ?thesis
    using createOrMergeItem_new [OF v no, of e] by simp
qed

lemma mergeable_with_same_key:
  assumes "req_storageAreaId rq2 = req_storageAreaId rq1"
    and "LOWER (trim (req_name rq2)) = LOWER (trim (req_name rq1))"
    and "or_null (req_expiryDate rq2) = or_null (req_expiryDate rq1)"
  shows "mergeable_with rq2 = mergeable_with rq1"
  using assms by (intro ext) (simp add: mergeable_with_def)

text \<open>
  C2, amended. For a request that passes validation, on a table with distinct ids in which
  no record has the empty string as expiry date, \<open>POST /api/items\<close> answers with a
  record of an id already stored exactly when some stored record is in the requested
  storage area, is unopened, has a name equal to the trimmed requested name up to ASCII
  case, and has an expiry date equal to the requested one, an empty-string request
  counting as absent (and both absent counting as equal). The first such row in table
  order is the merge target: its quantity grows by the requested quantity and no other
  row changes. With no such row nothing is merged; when the requested expiry date is not
  the empty string, the new record is appended if its id is fresh and its storage area
  passes the foreign-key check, and otherwise the insertion raises and the table is
  unchanged. An opened record is never a merge target, and a stored expiry date never
  matches a request without one. What the route stores for an empty-string request, and
  what it does on a table that holds an empty-string expiry date, is not stated here.
\<close>

theorem createOrMergeItem_merge_iff:
  assumes v: "valid_create rq" and dist: "distinct (map itemId (items d))"
    and stored: "\<forall>r\<in>set (items d). expiryDate r \<noteq> Some []"
  shows "((\<exists>r'. fst (createOrMergeItem e rq d) = Inr r' \<and> itemId r' \<in> set (map itemId (items d)))
            \<longleftrightarrow> (\<exists>r\<in>set (items d). mergeable_with rq r))
    \<and> (\<forall>r. find (mergeable_with rq) (items d) = Some r \<longrightarrow>
          createOrMergeItem e rq d =
            (Inr (r\<lparr>quantity := quantity r + req_quantity rq\<rparr>),
             d\<lparr>items := map (\<lambda>x. if itemId x = itemId r
                                   then x\<lparr>quantity := quantity r + req_quantity rq\<rparr> else x)
                             (items d)\<rparr>))
    \<and> ((\<forall>r\<in>set (items d). \<not> mergeable_with rq r) \<and> req_expiryDate rq \<noteq> Some [] \<longrightarrow>
          createOrMergeItem e rq d =
            (if generateId e \<notin> set (map itemId (items d))
                \<and> (foreign_keys d \<longrightarrow> req_storageAreaId rq \<in> set (map areaId (storage_areas d)))
             then (Inr (newItem e rq), d\<lparr>items := items d @ [newItem e rq]\<rparr>)
             else (Inl InternalError, d)))"
proof (intro conjI allI impI)
  show "(\<exists>r'. fst (createOrMergeItem e rq d) = Inr r' \<and> itemId r' \<in> set (map itemId (items d)))
            \<longleftrightarrow> (\<exists>r\<in>set (items d). mergeable_with rq r)"
  proof (cases "find (mergeable_with rq) (items d)")
    case None
    then have no: "\<forall>r\<in>set (items d). \<not> mergeable_with rq r"
      by (simp add: find_None_iff)
    have "\<not> (\<exists>r'. fst (createOrMergeItem e rq d) = Inr r' \<and> itemId r' \<in> set (map itemId (items d)))"
      using createOrMergeItem_new [OF v None, of e]
      by (auto simp: insertItem_def newItem_def split: if_splits)
    then show ?thesis using no by blast
  next
    case (Some r)
    then have "r \<in> set (items d)" "mergeable_with rq r"
      by (auto simp: find_Some_iff)
    then show ?thesis
      using createOrMergeItem_merge [OF v Some dist, of e] by auto
  qed
next
  fix r assume "find (mergeable_with rq) (items d) = Some r"
  then show "createOrMergeItem e rq d =
            (Inr (r\<lparr>quantity := quantity r + req_quantity rq\<rparr>),
             d\<lparr>items := map (\<lambda>x. if itemId x = itemId r
                                   then x\<lparr>quantity := quantity r + req_quantity rq\<rparr> else x)
                             (items d)\<rparr>)"
    by (rule createOrMergeItem_merge [OF v _ dist])
next
  assume "(\<forall>r\<in>set (items d). \<not> mergeable_with rq r) \<and> req_expiryDate rq \<noteq> Some []"
  then have "find (mergeable_with rq) (items d) = None"
    by (simp add: find_None_iff)
  from createOrMergeItem_new [OF v this, of e]
  show "createOrMergeItem e rq d =
            (if generateId e \<notin> set (map itemId (items d))
                \<and> (foreign_keys d \<longrightarrow> req_storageAreaId rq \<in> set (map areaId (storage_areas d)))
             then (Inr (newItem e rq), d\<lparr>items := items d @ [newItem e rq]\<rparr>)
             else (Inl InternalError, d))"
    by (auto simp: insertItem_def newItem_def split: if_splits)
qed

theorem createOrMergeItem_merge_iff_witness:
  "valid_create \<lparr>req_name = ''milk'', req_quantity = 3, req_storageAreaId = ''fridge'',
                  req_expiryDate = Some ''2024-06-01''\<rparr>
   \<and> distinct (map itemId (items (ex_db\<lparr>items := [ex_item ''a'' ''Milk'' 2 (Some ''2024-06-01'')]\<rparr>)))
   \<and> \<not> (\<exists>r\<in>set (items (ex_db\<lparr>items := [ex_item ''a'' ''Milk'' 2 (Some ''2024-06-01'')]\<rparr>)).
           expiryDate r = Some [])
   \<and> find (mergeable_with \<lparr>req_name = ''milk'', req_quantity = 3, req_storageAreaId = ''fridge'',
                             req_expiryDate = Some ''2024-06-01''\<rparr>)
        (items (ex_db\<lparr>items := [ex_item ''a'' ''Milk'' 2 (Some ''2024-06-01'')]\<rparr>))
       = Some (ex_item ''a'' ''Milk'' 2 (Some ''2024-06-01''))
   \<and> fst (createOrMergeItem (ex_env ''n1'' 5000)
        \<lparr>req_name = ''milk'', req_quantity = 3, req_storageAreaId = ''fridge'',
         req_expiryDate = Some ''2024-06-01''\<rparr>
        (ex_db\<lparr>items := [ex_item ''a'' ''Milk'' 2 (Some ''2024-06-01'')]\<rparr>))
       = Inr ((ex_item ''a'' ''Milk'' 2 (Some ''2024-06-01''))\<lparr>quantity := 2 + 3\<rparr>)
   \<and> valid_create \<lparr>req_name = ''Milk'', req_quantity = 3, req_storageAreaId = ''fridge'',
                    req_expiryDate = None\<rparr>
   \<and> \<not> (\<exists>r\<in>set (items (ex_db\<lparr>items := [ex_item ''a'' ''Milk'' 2 (Some ''2024-06-01'')]\<rparr>)).
            mergeable_with \<lparr>req_name = ''Milk'', req_quantity = 3, req_storageAreaId = ''fridge'',
                            req_expiryDate = None\<rparr> r)
   \<and> req_expiryDate \<lparr>req_name = ''Milk'', req_quantity = 3, req_storageAreaId = ''fridge'',
                       req_expiryDate = None\<rparr> \<noteq> Some []
   \<and> createOrMergeItem (ex_env ''n1'' 5000)
         \<lparr>req_name = ''Milk'', req_quantity = 3, req_storageAreaId = ''fridge'', req_expiryDate = None\<rparr>
         (ex_db\<lparr>items := [ex_item ''a'' ''Milk'' 2 (Some ''2024-06-01'')]\<rparr>)
       = (Inr ((ex_item ''n1'' ''Milk'' 3 None)\<lparr>createdAt := 5000\<rparr>),
          ex_db\<lparr>items := [ex_item ''a'' ''Milk'' 2 (Some ''2024-06-01''),
                           (ex_item ''n1'' ''Milk'' 3 None)\<lparr>createdAt := 5000\<rparr>]\<rparr>)"
proof -
  let ?d = "ex_db\<lparr>items := [ex_item ''a'' ''Milk'' 2 (Some ''2024-06-01'')]\<rparr>"
  let ?e = "ex_env ''n1'' 5000"
  let ?rqA = "\<lparr>req_name = ''milk'', req_quantity = 3, req_storageAreaId = ''fridge'',
                req_expiryDate = Some ''2024-06-01''\<rparr>"
  let ?rqB = "\<lparr>req_name = ''Milk'', req_quantity = 3, req_storageAreaId = ''fridge'',
                req_expiryDate = None\<rparr>"
  have vA: "valid_create ?rqA" by code_simp
  have vB: "valid_create ?rqB" by code_simp
  have dist: "distinct (map itemId (items ?d))" by simp
  have st: "\<forall>r\<in>set (items ?d). expiryDate r \<noteq> Some []" by (simp add: ex_item_def)
  have fA: "find (mergeable_with ?rqA) (items ?d) = Some (ex_item ''a'' ''Milk'' 2 (Some ''2024-06-01''))"
    by code_simp
  have nB: "\<forall>r\<in>set (items ?d). \<not> mergeable_with ?rqB r"
    by (simp add: mergeable_with_def ex_item_def or_null_def)
  have xB: "req_expiryDate ?rqB \<noteq> Some []" by simp
  have cA: "fst (createOrMergeItem ?e ?rqA ?d)
      = Inr ((ex_item ''a'' ''Milk'' 2 (Some ''2024-06-01''))\<lparr>quantity := 2 + 3\<rparr>)"
  proof -
    let ?r = "ex_item ''a'' ''Milk'' 2 (Some ''2024-06-01'')"
    from createOrMergeItem_merge_iff [OF vA dist st, of ?e] fA
    have "createOrMergeItem ?e ?rqA ?d =
            (Inr (?r\<lparr>quantity := quantity ?r + req_quantity ?rqA\<rparr>),
             ?d\<lparr>items := map (\<lambda>x. if itemId x = itemId ?r
                                   then x\<lparr>quantity := quantity ?r + req_quantity ?rqA\<rparr> else x)
                             (items ?d)\<rparr>)"
      by blast
    then show ?thesis by (simp add: ex_item_def)
  qed
  have cB: "createOrMergeItem ?e ?rqB ?d
       = (Inr ((ex_item ''n1'' ''Milk'' 3 None)\<lparr>createdAt := 5000\<rparr>),
          ex_db\<lparr>items := [ex_item ''a'' ''Milk'' 2 (Some ''2024-06-01''),
                           (ex_item ''n1'' ''Milk'' 3 None)\<lparr>createdAt := 5000\<rparr>]\<rparr>)"
  proof -
    from createOrMergeItem_merge_iff [OF vB dist st, of ?e] nB xB
    have "createOrMergeItem ?e ?rqB ?d =
            (if generateId ?e \<notin> set (map itemId (items ?d))
                \<and> (foreign_keys ?d \<longrightarrow> req_storageAreaId ?rqB \<in> set (map areaId (storage_areas ?d)))
             then (Inr (newItem ?e ?rqB), ?d\<lparr>items := items ?d @ [newItem ?e ?rqB]\<rparr>)
             else (Inl InternalError, ?d))"
      by blast
    moreover have "generateId ?e \<notin> set (map itemId (items ?d))
                \<and> (foreign_keys ?d \<longrightarrow> req_storageAreaId ?rqB \<in> set (map areaId (storage_areas ?d)))"
      by code_simp
    moreover have "newItem ?e ?rqB = (ex_item ''n1'' ''Milk'' 3 None)\<lparr>createdAt := 5000\<rparr>"
      by code_simp
    ultimately show ?thesis by simp
  qed
  have st': "\<not> (\<exists>r\<in>set (items ?d). expiryDate r = Some [])" using st by blast
  have nB': "\<not> (\<exists>r\<in>set (items ?d). mergeable_with ?rqB r)" using nB by blast
  show ?thesis using vA vB dist st' fA nB' xB cA cB by blast
qed

text \<open>With the key as the specification words it the equivalence fails: a request whose
  expiry date is the empty string merges into a record without expiry date.\<close>

theorem createOrMergeItem_merge_counterexample:
  "\<not> ((\<exists>r'. fst (createOrMergeItem (ex_env ''n1'' 5000)
                 \<lparr>req_name = ''Milk'', req_quantity = 3, req_storageAreaId = ''fridge'',
                  req_expiryDate = Some []\<rparr>
                 (ex_db\<lparr>items := [ex_item ''a'' ''Milk'' 2 None]\<rparr>)) = Inr r'
             \<and> itemId r' \<in> set (map itemId (items (ex_db\<lparr>items := [ex_item ''a'' ''Milk'' 2 None]\<rparr>))))
        \<longleftrightarrow> (\<exists>r\<in>set (items (ex_db\<lparr>items := [ex_item ''a'' ''Milk'' 2 None]\<rparr>)).
               mergeable_as_claimed \<lparr>req_name = ''Milk'', req_quantity = 3,
                                      req_storageAreaId = ''fridge'', req_expiryDate = Some []\<rparr> r))"
proof -
  let ?d = "ex_db\<lparr>items := [ex_item ''a'' ''Milk'' 2 None]\<rparr>"
  let ?rq = "\<lparr>req_name = ''Milk'', req_quantity = 3, req_storageAreaId = ''fridge'',
               req_expiryDate = Some []\<rparr>"
  have l: "fst (createOrMergeItem (ex_env ''n1'' 5000) ?rq ?d) = Inr (ex_item ''a'' ''Milk'' 5 None)"
    by code_simp
  have m: "itemId (ex_item ''a'' ''Milk'' 5 None) \<in> set (map itemId (items ?d))"
    by (simp add: ex_item_def)
  have r: "\<not> (\<exists>r\<in>set (items ?d). mergeable_as_claimed ?rq r)"
    by (simp add: mergeable_as_claimed_def ex_item_def)
  show ?thesis using l m r by blast
qed

text \<open>Two requests with the same key merge into one record, as long as the requested
  expiry date is not the empty string.\<close>

lemma createOrMergeItem_twice_merges:
  assumes v1: "valid_create rq1" and v2: "valid_create rq2"
    and area: "req_storageAreaId rq2 = req_storageAreaId rq1"
    and name: "LOWER (trim (req_name rq2)) = LOWER (trim (req_name rq1))"
    and expiry: "req_expiryDate rq2 = req_expiryDate rq1" "req_expiryDate rq1 \<noteq> Some []"
    and no: "\<forall>r\<in>set (items d). \<not> mergeable_with rq1 r"
    and dist: "distinct (map itemId (items d))"
    and fresh: "generateId e1 \<notin> set (map itemId (items d))"
    and fk: "foreign_keys d \<longrightarrow> req_storageAreaId rq1 \<in> set (map areaId (storage_areas d))"
  shows "snd (createOrMergeItem e2 rq2 (snd (createOrMergeItem e1 rq1 d)))
         = d\<lparr>items := items d @ [(newItem e1 rq1)\<lparr>quantity := req_quantity rq1 + req_quantity rq2\<rparr>]\<rparr>"
proof -
  let ?n = "newItem e1 rq1"
  let ?d1 = "d\<lparr>items := items d @ [?n]\<rparr>"
  have none1: "find (mergeable_with rq1) (items d) = None"
    using no by (simp add: find_None_iff)
  have step1: "createOrMergeItem e1 rq1 d = (Inr ?n, ?d1)"
    by (rule createOrMergeItem_created [OF v1 none1 fresh fk])
  have same: "mergeable_with rq2 = mergeable_with rq1"
    using area name expiry by (intro mergeable_with_same_key) simp_all
  have on: "or_null (req_expiryDate rq1) = req_expiryDate rq1"
    using expiry(2) by (cases "req_expiryDate rq1") (auto simp: or_null_def)
  have mn: "mergeable_with rq1 ?n"
    by (simp add: mergeable_with_def newItem_def on)
  have f2: "find (mergeable_with rq2) (items ?d1) = Some ?n"
    using none1 mn by (simp add: same find_append_cases)
  have dist1: "distinct (map itemId (items ?d1))"
    using dist fresh by (simp add: newItem_def)
  have upd: "map (\<lambda>x. if itemId x = itemId ?n then x\<lparr>quantity := quantity ?n + req_quantity rq2\<rparr> else x) (items d)
             = items d"
    using fresh by (intro map_idI) (force simp: newItem_def)
  have "createOrMergeItem e2 rq2 ?d1 =
      (Inr (?n\<lparr>quantity := quantity ?n + req_quantity rq2\<rparr>),
       ?d1\<lparr>items := map (\<lambda>x. if itemId x = itemId ?n
                                then x\<lparr>quantity := quantity ?n + req_quantity rq2\<rparr> else x)
                          (items ?d1)\<rparr>)"
    by (rule createOrMergeItem_merge [OF v2 f2 dist1])
  then show ?thesis
    using upd by (simp add: step1) (simp add: newItem_def)
qed

text \<open>
  C1. The claim is that two requests with the same storage area, the same name up to case
  and the same expiry date leave one record with the summed quantity and the id and
  creation time of the first. With the empty string as expiry date the route leaves two
  records: the lookup reads the empty string as absent, the insertion stores it as it is.
\<close>

theorem createOrMergeItem_empty_expiry_twice:
  "snd (createOrMergeItem (ex_env ''n2'' 2000)
          \<lparr>req_name = ''milk'', req_quantity = 3, req_storageAreaId = ''fridge'', req_expiryDate = Some []\<rparr>
          (snd (createOrMergeItem (ex_env ''n1'' 1000)
                  \<lparr>req_name = ''Milk'', req_quantity = 2, req_storageAreaId = ''fridge'', req_expiryDate = Some []\<rparr>
                  ex_db)))
   = ex_db\<lparr>items := [ex_item ''n1'' ''Milk'' 2 (Some []),
                      (ex_item ''n2'' ''milk'' 3 (Some []))\<lparr>createdAt := 2000\<rparr>]\<rparr>"
  by code_simp

text \<open>
  C10, amended. When no unopened record with the requested name and without expiry date
  is stored in the area, two valid requests with the same area, the same name up to case
  and the empty string as expiry date, given fresh distinct ids, append two records: each
  has the key of the other request as the specification words it, and the lookup of the
  second request does not find the record the first one created.
\<close>

theorem createOrMergeItem_empty_expiry_never_merges:
  assumes v1: "valid_create rq1" and v2: "valid_create rq2"
    and area: "req_storageAreaId rq2 = req_storageAreaId rq1"
    and name: "LOWER (trim (req_name rq2)) = LOWER (trim (req_name rq1))"
    and expiry: "req_expiryDate rq1 = Some []" "req_expiryDate rq2 = Some []"
    and no: "\<forall>r\<in>set (items d). \<not> mergeable_with rq1 r"
    and fresh: "generateId e1 \<notin> set (map itemId (items d))"
               "generateId e2 \<notin> set (map itemId (items d))" "generateId e2 \<noteq> generateId e1"
    and fk: "foreign_keys d \<longrightarrow> req_storageAreaId rq1 \<in> set (map areaId (storage_areas d))"
  shows "snd (createOrMergeItem e2 rq2 (snd (createOrMergeItem e1 rq1 d)))
           = d\<lparr>items := items d @ [newItem e1 rq1, newItem e2 rq2]\<rparr>
         \<and> itemId (newItem e1 rq1) \<noteq> itemId (newItem e2 rq2)
         \<and> mergeable_as_claimed rq2 (newItem e1 rq1)
         \<and> mergeable_as_claimed rq1 (newItem e2 rq2)
         \<and> findMergeable (snd (createOrMergeItem e1 rq1 d)) (req_storageAreaId rq2)
              (trim (req_name rq2)) (or_null (req_expiryDate rq2)) = None"
proof -
  let ?n = "newItem e1 rq1"
  let ?d1 = "d\<lparr>items := items d @ [?n]\<rparr>"
  have none1: "find (mergeable_with rq1) (items d) = None"
    using no by (simp add: find_None_iff)
  have step1: "createOrMergeItem e1 rq1 d = (Inr ?n, ?d1)"
    by (rule createOrMergeItem_created [OF v1 none1 fresh(1) fk])
  have same: "mergeable_with rq2 = mergeable_with rq1"
    using area name expiry by (intro mergeable_with_same_key) simp_all
  have mn: "\<not> mergeable_with rq1 ?n"
    using expiry by (simp add: mergeable_with_def newItem_def or_null_def)
  have f2: "find (mergeable_with rq2) (items ?d1) = None"
    using none1 mn by (simp add: same find_append_cases)
  have fresh2: "generateId e2 \<notin> set (map itemId (items ?d1))"
    using fresh by (simp add: newItem_def)
  have fk2: "foreign_keys ?d1 \<longrightarrow> req_storageAreaId rq2 \<in> set (map areaId (storage_areas ?d1))"
    using fk area by simp
  have step2: "createOrMergeItem e2 rq2 ?d1 = (Inr (newItem e2 rq2), ?d1\<lparr>items := items ?d1 @ [newItem e2 rq2]\<rparr>)"
    by (rule createOrMergeItem_created [OF v2 f2 fresh2 fk2])
  have a: "snd (createOrMergeItem e2 rq2 (snd (createOrMergeItem e1 rq1 d)))
           = d\<lparr>items := items d @ [newItem e1 rq1, newItem e2 rq2]\<rparr>"
    by (simp add: step1 step2)
  have b: "itemId (newItem e1 rq1) \<noteq> itemId (newItem e2 rq2)"
    using fresh(3) by (simp add: newItem_def)
  have c: "mergeable_as_claimed rq2 (newItem e1 rq1)" "mergeable_as_claimed rq1 (newItem e2 rq2)"
    using area name expiry by (simp_all add: mergeable_as_claimed_def newItem_def)
  have e: "findMergeable (snd (createOrMergeItem e1 rq1 d)) (req_storageAreaId rq2)
              (trim (req_name rq2)) (or_null (req_expiryDate rq2)) = None"
    using f2 by (simp add: step1 findMergeable_find)
  show ?thesis using a b c e by blast
qed

theorem createOrMergeItem_empty_expiry_never_merges_witness:
  "valid_create \<lparr>req_name = ''Milk'', req_quantity = 2, req_storageAreaId = ''fridge'', req_expiryDate = Some []\<rparr>
   \<and> valid_create \<lparr>req_name = ''milk'', req_quantity = 3, req_storageAreaId = ''fridge'', req_expiryDate = Some []\<rparr>
   \<and> LOWER (trim ''milk'') = LOWER (trim ''Milk'')
   \<and> \<not> (\<exists>r\<in>set (items ex_db).
           mergeable_with \<lparr>req_name = ''Milk'', req_quantity = 2, req_storageAreaId = ''fridge'', req_expiryDate = Some []\<rparr> r)
   \<and> ''n1'' \<notin> set (map itemId (items ex_db)) \<and> ''n2'' \<notin> set (map itemId (items ex_db)) \<and> ''n2'' \<noteq> ''n1''
   \<and> ''fridge'' \<in> set (map areaId (storage_areas ex_db))
   \<and> snd (createOrMergeItem (ex_env ''n2'' 2000)
          \<lparr>req_name = ''milk'', req_quantity = 3, req_storageAreaId = ''fridge'', req_expiryDate = Some []\<rparr>
          (snd (createOrMergeItem (ex_env ''n1'' 1000)
                  \<lparr>req_name = ''Milk'', req_quantity = 2, req_storageAreaId = ''fridge'', req_expiryDate = Some []\<rparr>
                  ex_db)))
       = ex_db\<lparr>items := items ex_db @
            [newItem (ex_env ''n1'' 1000) \<lparr>req_name = ''Milk'', req_quantity = 2, req_storageAreaId = ''fridge'', req_expiryDate = Some []\<rparr>,
             newItem (ex_env ''n2'' 2000) \<lparr>req_name = ''milk'', req_quantity = 3, req_storageAreaId = ''fridge'', req_expiryDate = Some []\<rparr>]\<rparr>"
proof -
  let ?rq1 = "\<lparr>req_name = ''Milk'', req_quantity = 2, req_storageAreaId = ''fridge'', req_expiryDate = Some []\<rparr>"
  let ?rq2 = "\<lparr>req_name = ''milk'', req_quantity = 3, req_storageAreaId = ''fridge'', req_expiryDate = Some []\<rparr>"
  have v1: "valid_create ?rq1" by code_simp
  have v2: "valid_create ?rq2" by code_simp
  have nm: "LOWER (trim ''milk'') = LOWER (trim ''Milk'')" by code_simp
  have no: "\<forall>r\<in>set (items ex_db). \<not> mergeable_with ?rq1 r" by (simp add: ex_db_def)
  have f1: "''n1'' \<notin> set (map itemId (items ex_db))" and f2: "''n2'' \<notin> set (map itemId (items ex_db))"
    by (simp_all add: ex_db_def)
  have f3: "''n2'' \<noteq> ''n1''" by simp
  have ar: "''fridge'' \<in> set (map areaId (storage_areas ex_db))"
    by (simp add: ex_db_def DEFAULT_STORAGE_AREAS_def)
  have c: "snd (createOrMergeItem (ex_env ''n2'' 2000) ?rq2 (snd (createOrMergeItem (ex_env ''n1'' 1000) ?rq1 ex_db)))
       = ex_db\<lparr>items := items ex_db @ [newItem (ex_env ''n1'' 1000) ?rq1, newItem (ex_env ''n2'' 2000) ?rq2]\<rparr>"
    using createOrMergeItem_empty_expiry_never_merges [of ?rq1 ?rq2 ex_db "ex_env ''n1'' 1000" "ex_env ''n2'' 2000"]
      v1 v2 nm no f1 f2 f3 ar
    by (simp add: ex_env_def)
  show ?thesis using v1 v2 nm no f1 f2 f3 ar c by blast
qed

text \<open>Without that condition the claim fails: both requests merge into the stored record
  without expiry date and no record is created.\<close>

theorem createOrMergeItem_empty_expiry_never_merges_counterexample:
  "snd (createOrMergeItem (ex_env ''n2'' 2000)
          \<lparr>req_name = ''milk'', req_quantity = 3, req_storageAreaId = ''fridge'', req_expiryDate = Some []\<rparr>
          (snd (createOrMergeItem (ex_env ''n1'' 1000)
                  \<lparr>req_name = ''Milk'', req_quantity = 2, req_storageAreaId = ''fridge'', req_expiryDate = Some []\<rparr>
                  (ex_db\<lparr>items := [ex_item ''a'' ''Milk'' 1 None]\<rparr>))))
   = ex_db\<lparr>items := [ex_item ''a'' ''Milk'' 6 None]\<rparr>"
  by code_simp

section \<open>Opening an item\<close>



lemma ceil_div_bounds:
  assumes "0 < b"
  shows "(ceil_div a b - 1) * b < a \<and> a \<le> ceil_div a b * b"
proof -
  define q where "q = (- a) div b"
  define r where "r = (- a) mod b"
  have "- a = q * b + r"
    by (simp add: q_def r_def)
  then have a: "a = - (q * b) - r"
    by linarith
  have r: "0 \<le> r" "r < b"
    using assms by (simp_all add: r_def)
  have c: "ceil_div a b = - q"
    by (simp add: ceil_div_def q_def)
  have m: "(- q - 1) * b = - (q * b) - b" "- q * b = - (q * b)"
    by (simp_all add: algebra_simps)
  have "(- q - 1) * b < a" "a \<le> - q * b"
    using a r unfolding m by linarith+
  then show ?thesis
    unfolding c by simp
qed

lemma ceil_div_unique:
  assumes "0 < b" "(n - 1) * b < a" "a \<le> n * b"
  shows "ceil_div a b = n"
proof -
  have b: "(ceil_div a b - 1) * b < a" "a \<le> ceil_div a b * b"
    using ceil_div_bounds [OF assms(1), of a] by simp_all
  have "(ceil_div a b - 1) * b < n * b" using b(1) assms(3) by linarith
  then have 1: "ceil_div a b - 1 < n" using assms(1) by (simp add: mult_less_cancel_right)
  have "(n - 1) * b < ceil_div a b * b" using b(2) assms(2) by linarith
  then have 2: "n - 1 < ceil_div a b" using assms(1) by (simp add: mult_less_cancel_right)
  from 1 2 show ?thesis by linarith
qed

text \<open>The recomputation as a formula on instants.\<close>

lemma newExpiryDate_formula:
  assumes ex: "expiryDate item = Some s" and ne: "s \<noteq> []" and p: "parseDate e s = Some t"
  shows "newExpiryDate e item =
        (if ceil_div (t - today e) 86400000 > 1
         then Some (toISODate e (today e + max 1 (ceil_div (t - today e) 86400000 div 2) * 86400000))
         else Some s)"
  using ex ne p by (simp add: newExpiryDate_def Let_def mult.commute)

text \<open>The recomputation on calendar dates. The stored date is day \<open>n\<close>, parsed as
  its UTC midnight; the local day is \<open>D\<close> in a zone \<open>z\<close> milliseconds east of UTC, so
  that the local midnight is \<open>D * 86400000 - z\<close>; an instant is formatted as its UTC
  date. In UTC and west of it the result is day \<open>D + max 1 ((n - D) div 2)\<close> when
  \<open>n - D > 1\<close> and the stored date otherwise. East of UTC one more day is counted and
  the result is one day earlier.\<close>

lemma newExpiryDate_dates:
  assumes ex: "expiryDate item = Some s" and ne: "s \<noteq> []"
    and p: "parseDate e s = Some (n * 86400000)"
    and td: "today e = D * 86400000 - z"
    and z: "- 86400000 < z" "z < 86400000"
    and fm: "\<forall>t. toISODate e t = fmt (t div 86400000)"
  shows "z \<le> 0 \<longrightarrow> newExpiryDate e item =
            (if n - D > 1 then Some (fmt (D + max 1 ((n - D) div 2))) else Some s)"
    and "0 < z \<longrightarrow> newExpiryDate e item =
            (if n - D + 1 > 1 then Some (fmt (D + max 1 ((n - D + 1) div 2) - 1)) else Some s)"
proof -
  let ?DAY = "86400000 :: int"
  have diff: "n * ?DAY - today e = (n - D) * ?DAY + z"
    by (simp add: td algebra_simps)
  have f: "newExpiryDate e item =
        (if ceil_div (n * ?DAY - today e) ?DAY > 1
         then Some (toISODate e (today e + max 1 (ceil_div (n * ?DAY - today e) ?DAY div 2) * ?DAY))
         else Some s)"
    by (rule newExpiryDate_formula [OF ex ne p])
  have day: "(today e + m * ?DAY) div ?DAY = D + m + (- z) div ?DAY" for m
  proof -
    have "today e + m * ?DAY = - z + (D + m) * ?DAY" by (simp add: td algebra_simps)
    then show ?thesis by simp
  qed
  show "z \<le> 0 \<longrightarrow> newExpiryDate e item =
            (if n - D > 1 then Some (fmt (D + max 1 ((n - D) div 2))) else Some s)"
  proof
    assume w: "z \<le> 0"
    have c: "ceil_div (n * ?DAY - today e) ?DAY = n - D"
      unfolding diff using z w by (intro ceil_div_unique) (simp_all add: algebra_simps)
    have "(- z) div ?DAY = 0" using z w by simp
    then show "newExpiryDate e item =
            (if n - D > 1 then Some (fmt (D + max 1 ((n - D) div 2))) else Some s)"
      by (simp add: f c fm day)
  qed
  show "0 < z \<longrightarrow> newExpiryDate e item =
            (if n - D + 1 > 1 then Some (fmt (D + max 1 ((n - D + 1) div 2) - 1)) else Some s)"
  proof
    assume w: "0 < z"
    have c: "ceil_div (n * ?DAY - today e) ?DAY = n - D + 1"
      unfolding diff using z w by (intro ceil_div_unique) (simp_all add: algebra_simps)
    have "(?DAY - z + (- 1) * ?DAY) div ?DAY = - 1 + (?DAY - z) div ?DAY"
      by (rule div_mult_self1) simp
    moreover have "(?DAY - z) div ?DAY = 0" using z w by simp
    moreover have "?DAY - z + (- 1) * ?DAY = - z" by simp
    ultimately have "(- z) div ?DAY = - 1" by simp
    then show "newExpiryDate e item =
            (if n - D + 1 > 1 then Some (fmt (D + max 1 ((n - D + 1) div 2) - 1)) else Some s)"
      by (simp add: f c fm day)
  qed
qed

text \<open>
  C5. The claim is that opening recomputes the expiry date as today plus
  \<open>max 1 (daysLeft div 2)\<close> days when more than one day is left and leaves it unchanged
  otherwise, so that 10 days out becomes 5 days out and 1 day out stays. The route takes
  today as the local midnight but parses and formats dates in UTC: in a process nine hours
  east of UTC, on 2024-06-01, the expiry date 2024-06-02 (1 day out) becomes 2024-06-01
  and 2024-06-11 (10 days out) becomes 2024-06-05.
\<close>

theorem newExpiryDate_east_of_utc:
  "today ex_env_east = 19875 * 86400000 - 9 * 3600000
   \<and> parseDate ex_env_east ''2024-06-02'' = Some (19876 * 86400000)
   \<and> parseDate ex_env_east ''2024-06-11'' = Some (19885 * 86400000)
   \<and> newExpiryDate ex_env_east (ex_item ''a'' ''Milk'' 3 (Some ''2024-06-02'')) = Some ''2024-06-01''
   \<and> newExpiryDate ex_env_east (ex_item ''a'' ''Milk'' 3 (Some ''2024-06-11'')) = Some ''2024-06-05''
   \<and> fst (openItem ex_env_east ''a'' 3 (ex_db\<lparr>items := [ex_item ''a'' ''Milk'' 3 (Some ''2024-06-02'')]\<rparr>))
       = Inr [(ex_item ''a'' ''Milk'' 3 (Some ''2024-06-01''))
                \<lparr>isOpened := True, openedAt := Some 1717203600000\<rparr>]"
  by code_simp







section \<open>Reordering\<close>

lemma renumber_Nil: "renumber [] x = x"
  by (simp add: renumber_def)

lemma renumber_Cons:
  "renumber ((k, a) # ps) x = renumber ps (if areaId x = a then x\<lparr>order := int k\<rparr> else x)"
  by (simp add: renumber_def)

lemma fold_updateOrder:
  "fold (\<lambda>(k, a). updateOrder a (int k)) ps d
     = d\<lparr>storage_areas := map (renumber ps) (storage_areas d)\<rparr>"
proof (induction ps arbitrary: d)
  case Nil
  show ?case by (simp add: renumber_Nil)
next
  case (Cons p ps)
  obtain k a where p: "p = (k, a)" by (cases p)
  have "fold (\<lambda>(k, a). updateOrder a (int k)) (p # ps) d
          = fold (\<lambda>(k, a). updateOrder a (int k)) ps (updateOrder a (int k) d)"
    by (simp add: p)
  also have "\<dots> = (updateOrder a (int k) d)
                      \<lparr>storage_areas := map (renumber ps) (storage_areas (updateOrder a (int k) d))\<rparr>"
    by (rule Cons.IH)
  also have "\<dots> = d\<lparr>storage_areas := map (renumber (p # ps)) (storage_areas d)\<rparr>"
    by (simp add: p renumber_Cons updateOrder_def comp_def)
  finally show ?case .
qed

lemma reorderAreas_map:
  "reorderAreas ids d = d\<lparr>storage_areas := map (renumber (enumerate 0 ids)) (storage_areas d)\<rparr>"
  by (simp add: reorderAreas_def fold_updateOrder)

lemma renumber_other:
  "areaId x \<notin> set ids \<Longrightarrow> renumber (enumerate n ids) x = x"
  by (induction ids arbitrary: n) (simp_all add: renumber_Nil renumber_Cons)

lemma renumber_index:
  "distinct ids \<Longrightarrow> areaId x \<in> set ids \<Longrightarrow>
   renumber (enumerate n ids) x = x\<lparr>order := int (n + index_of ids (areaId x))\<rparr>"
proof (induction ids arbitrary: n)
  case Nil
  then show ?case by simp
next
  case (Cons a ids)
  show ?case
  proof (cases "areaId x = a")
    case True
    then have "areaId (x\<lparr>order := int n\<rparr>) \<notin> set ids"
      using Cons.prems by simp
    then have "renumber (enumerate (Suc n) ids) (x\<lparr>order := int n\<rparr>) = x\<lparr>order := int n\<rparr>"
      by (rule renumber_other)
    then show ?thesis using True by (simp add: renumber_Cons)
  next
    case False
    then have "areaId x \<in> set ids" using Cons.prems by simp
    then have "renumber (enumerate (Suc n) ids) x = x\<lparr>order := int (Suc n + index_of ids (areaId x))\<rparr>"
      using Cons.prems by (intro Cons.IH) simp_all
    then show ?thesis using False by (simp add: renumber_Cons)
  qed
qed

lemma index_of_nth:
  "distinct xs \<Longrightarrow> j < length xs \<Longrightarrow> index_of xs (xs ! j) = j"
proof (induction xs arbitrary: j)
  case Nil
  then show ?case by simp
next
  case (Cons x xs)
  then show ?case by (cases j) auto
qed

lemma map_index_of:
  "distinct xs \<Longrightarrow> map (index_of xs) xs = [0..<length xs]"
  by (rule nth_equalityI) (simp_all add: index_of_nth)

lemma filter_key_distinct:
  "distinct (map f xs) \<Longrightarrow> k \<in> set xs \<Longrightarrow> filter (\<lambda>x. f k = f x) xs = [k]"
proof (induction xs)
  case Nil
  then show ?case by simp
next
  case (Cons x xs)
  show ?case
  proof (cases "x = k")
    case True
    then have "\<forall>y\<in>set xs. f k \<noteq> f y" using Cons.prems by auto
    then have "filter (\<lambda>x. f k = f x) xs = []" by (simp add: filter_empty_conv)
    then show ?thesis using True by simp
  next
    case False
    then have "k \<in> set xs" using Cons.prems by simp
    moreover from this have "f k \<noteq> f x" using Cons.prems(1) by (auto simp: image_iff)
    ultimately show ?thesis using Cons by simp
  qed
qed

lemma sort_key_unique:
  assumes m: "mset ys = mset xs" and d: "distinct (map f ys)" and s: "sorted (map f ys)"
  shows "sort_key f xs = ys"
proof (rule properties_for_sort_key [OF m _ s])
  fix k assume k: "k \<in> set ys"
  have "mset (map f xs) = mset (map f ys)" using m by simp
  then have dx: "distinct (map f xs)" using d by (metis mset_eq_imp_distinct_iff)
  have kx: "k \<in> set xs" using k m by (metis mset_eq_setD)
  show "filter (\<lambda>x. f k = f x) ys = filter (\<lambda>x. f k = f x) xs"
    by (simp add: filter_key_distinct [OF d k] filter_key_distinct [OF dx kx])
qed

lemma map_renumber_by_index:
  assumes "distinct ids" "set (map areaId as) \<subseteq> set ids"
  shows "map (renumber (enumerate 0 ids)) as = map (by_index ids) as"
  using assms by (intro map_cong refl) (auto simp: renumber_index by_index_def)

lemma orders_by_index:
  assumes d: "distinct (map areaId as)" and m: "mset ids = mset (map areaId as)"
  shows "orders_permutation (map (by_index ids) as)"
proof -
  have di: "distinct ids" using d m by (metis mset_eq_imp_distinct_iff)
  have len: "length ids = length as" using m by (metis length_map size_mset)
  have "map order (map (by_index ids) as) = map (int \<circ> index_of ids) (map areaId as)"
    by (simp add: by_index_def comp_def)
  then have "mset (map order (map (by_index ids) as)) = image_mset (int \<circ> index_of ids) (mset (map areaId as))"
    by (simp only: mset_map)
  also have "\<dots> = image_mset (int \<circ> index_of ids) (mset ids)"
    by (simp only: m)
  also have "\<dots> = mset (map int (map (index_of ids) ids))"
    by (simp add: comp_def)
  also have "\<dots> = mset (map int [0..<length ids])"
    by (simp only: map_index_of [OF di])
  finally show ?thesis
    by (simp add: orders_permutation_def len)
qed

lemma by_index_enumerate:
  assumes "distinct (map areaId R)"
  shows "map (by_index (map areaId R)) R = map (\<lambda>(k, x). x\<lparr>order := int k\<rparr>) (enumerate 0 R)"
proof (rule nth_equalityI)
  show "length (map (by_index (map areaId R)) R) = length (map (\<lambda>(k, x). x\<lparr>order := int k\<rparr>) (enumerate 0 R))"
    by simp
next
  fix j assume "j < length (map (by_index (map areaId R)) R)"
  then have j: "j < length R" by simp
  have "index_of (map areaId R) (areaId (R ! j)) = j"
    using index_of_nth [OF assms, of j] j by simp
  then show "map (by_index (map areaId R)) R ! j = map (\<lambda>(k, x). x\<lparr>order := int k\<rparr>) (enumerate 0 R) ! j"
    using j by (simp add: by_index_def nth_enumerate_eq)
qed

lemma order_enumerate:
  "map order (map (\<lambda>(k, x). x\<lparr>order := int k\<rparr>) (enumerate n R)) = map int [n..<n + length R]"
proof -
  have "map order (map (\<lambda>(k, x). x\<lparr>order := int k\<rparr>) (enumerate n R))
          = map (\<lambda>p. int (fst p)) (enumerate n R)"
    by (simp add: comp_def case_prod_unfold)
  also have "\<dots> = map int (map fst (enumerate n R))"
    by (simp only: map_map comp_def)
  finally show ?thesis by (simp only: map_fst_enumerate)
qed

text \<open>Reordering by the ids of the current display list numbers that list from 0.\<close>

lemma reorder_display:
  assumes d: "distinct (map areaId as)"
  defines "R \<equiv> sort_key order as"
  shows "sort_key order (map (renumber (enumerate 0 (map areaId R))) as)
           = map (\<lambda>(k, x). x\<lparr>order := int k\<rparr>) (enumerate 0 R)"
    and "orders_permutation (map (renumber (enumerate 0 (map areaId R))) as)"
proof -
  let ?ids = "map areaId R"
  let ?L = "map (\<lambda>(k, x). x\<lparr>order := int k\<rparr>) (enumerate 0 R)"
  have mR: "mset R = mset as" by (simp add: R_def)
  have mids: "mset ?ids = mset (map areaId as)" using mR by simp
  have dR: "distinct ?ids" using d mids by (metis mset_eq_imp_distinct_iff)
  have sub: "set (map areaId as) \<subseteq> set ?ids" using mids by (metis mset_eq_setD subset_refl)
  have as2: "map (renumber (enumerate 0 ?ids)) as = map (by_index ?ids) as"
    by (rule map_renumber_by_index [OF dR sub])
  show "orders_permutation (map (renumber (enumerate 0 ?ids)) as)"
    unfolding as2 by (rule orders_by_index [OF d mids])
  have L: "?L = map (by_index ?ids) R"
    by (rule by_index_enumerate [OF dR, symmetric])
  have mL: "mset ?L = mset (map (by_index ?ids) as)"
    unfolding L using mR by simp
  have oL: "map order ?L = map int [0..<length R]"
    using order_enumerate [of 0 R] by simp
  have dL: "distinct (map order ?L)"
    unfolding oL by (simp add: distinct_map inj_on_def)
  have sL: "sorted (map order ?L)"
    unfolding oL by (simp add: sorted_map strict_sorted_iff [symmetric] sorted_wrt_map)  
  show "sort_key order (map (renumber (enumerate 0 ?ids)) as) = ?L"
    unfolding as2 by (rule sort_key_unique [OF mL dL sL])
qed

section \<open>Deleting a storage area\<close>

lemma length_filter_key:
  "distinct (map f xs) \<Longrightarrow> a \<in> set (map f xs) \<Longrightarrow>
   length (filter (\<lambda>x. f x \<noteq> a) xs) = length xs - 1"
proof (induction xs)
  case Nil
  then show ?case by simp
next
  case (Cons x xs)
  show ?case
  proof (cases "f x = a")
    case True
    then have "\<forall>y\<in>set xs. f y \<noteq> a" using Cons.prems by (auto simp: image_iff)
    then have "filter (\<lambda>x. f x \<noteq> a) xs = xs" by (simp add: filter_id_conv)
    then show ?thesis using True by simp
  next
    case False
    then have "a \<in> set (map f xs)" using Cons.prems by auto
    moreover from this have "xs \<noteq> []" by auto
    ultimately show ?thesis using False Cons by (cases xs) simp_all
  qed
qed

lemma getAreaById_Some_iff:
  "(getAreaById d a \<noteq> None) = (a \<in> set (map areaId (storage_areas d)))"
  by (auto simp: getAreaById_def find_None_iff)

lemma reorderAreas_Nil: "reorderAreas [] d = d"
  by (simp add: reorderAreas_def)

lemma deleteArea_found:
  assumes "getAreaById d a \<noteq> None"
  shows "deleteArea a d =
    (Inr (),
     reorderAreas (map areaId (sort_key order (filter (\<lambda>x. areaId x \<noteq> a) (storage_areas d))))
       (d\<lparr>storage_areas := filter (\<lambda>x. areaId x \<noteq> a) (storage_areas d),
          items := filter (\<lambda>r. storageAreaId r \<noteq> a) (items d)\<rparr>))"
proof -
  let ?d2 = "deleteAreaRow a (deleteByStorageArea a d)"
  have d2: "?d2 = d\<lparr>storage_areas := filter (\<lambda>x. areaId x \<noteq> a) (storage_areas d),
                     items := filter (\<lambda>r. storageAreaId r \<noteq> a) (items d)\<rparr>"
    by (simp add: deleteAreaRow_def deleteByStorageArea_def)
  have "(if length (map areaId (getAllAreas ?d2)) > 0
         then reorderAreas (map areaId (getAllAreas ?d2)) ?d2 else ?d2)
        = reorderAreas (map areaId (getAllAreas ?d2)) ?d2"
    by (cases "getAllAreas ?d2") (simp_all add: reorderAreas_Nil)
  then have "deleteArea a d = (Inr (), reorderAreas (map areaId (getAllAreas ?d2)) ?d2)"
    using assms by (auto simp: deleteArea_def Let_def)
  then show ?thesis
    unfolding d2 by (simp add: getAllAreas_def)
qed

lemma orders_set:
  assumes "orders_permutation as"
  shows "set (map order as) = int ` {0..<length as}"
proof -
  have "set (map order as) = set (map int [0..<length as])"
    using assms unfolding orders_permutation_def by (rule mset_eq_setD)
  then show ?thesis by simp
qed

lemma filter_upt_neq:
  "p < n \<Longrightarrow> filter (\<lambda>k. k \<noteq> p) [0..<n] = [0..<p] @ [Suc p..<n]"
proof -
  assume p: "p < n"
  have "[0..<n] = [0..<p] @ p # [Suc p..<n]"
    using p by (metis le_add1 less_imp_add_positive upt_add_eq_append upt_conv_Cons plus_nat.add_0)
  then show ?thesis by (auto simp: filter_id_conv filter_empty_conv)
qed

lemma nth_skip:
  assumes "p < n" "j < n - 1"
  shows "([0..<p] @ [Suc p..<n]) ! j = (if j < p then j else Suc j)"
  using assms by (auto simp: nth_append)

lemma orders_distinct:
  assumes "orders_permutation as"
  shows "distinct (map order as)"
proof -
  have "distinct (map int [0..<length as])" by (simp add: distinct_map inj_on_def)
  then show ?thesis
    using assms unfolding orders_permutation_def by (metis mset_eq_imp_distinct_iff)
qed

text \<open>The ranks of the survivors, in display order, when the ranks were \<open>0..N-1\<close>.\<close>

lemma survivors_ranks:
  assumes perm: "orders_permutation as" and del: "del \<in> set as"
  defines "R \<equiv> sort_key order (filter (\<lambda>x. order x \<noteq> order del) as)"
  shows "map order R = map int ([0..<nat (order del)] @ [Suc (nat (order del))..<length as])"
proof -
  let ?n = "length as"
  have os: "set (map order as) = int ` {0..<?n}" by (rule orders_set [OF perm])
  have "order del \<in> int ` {0..<?n}" using del os by auto
  then obtain q where q: "q < ?n" "order del = int q" by auto
  have od: "distinct (map order as)" by (rule orders_distinct [OF perm])
  have sR: "sorted (map order R)" by (simp add: R_def)
  have "distinct (map order (filter (\<lambda>x. order x \<noteq> order del) as))"
    using od by (rule distinct_map_filter)
  moreover have "mset (map order R) = mset (map order (filter (\<lambda>x. order x \<noteq> order del) as))"
    by (simp add: R_def)
  ultimately have dR: "distinct (map order R)"
    by (metis mset_eq_imp_distinct_iff)
  have "set (map order R) = set (map order as) - {int q}"
    by (auto simp: R_def q(2))
  also have "\<dots> = int ` {0..<?n} - {int q}"
    by (simp only: os)
  also have "\<dots> = int ` ({0..<?n} - {q})"
    by auto
  also have "\<dots> = set (map int (filter (\<lambda>k. k \<noteq> q) [0..<?n]))"
    by auto
  finally have eqs: "set (map order R) = set (map int (filter (\<lambda>k. k \<noteq> q) [0..<?n]))" .
  have sL: "sorted (map int (filter (\<lambda>k. k \<noteq> q) [0..<?n]))"
    by (simp add: sorted_map sorted_wrt_filter sorted_wrt_map)
  have dL: "distinct (map int (filter (\<lambda>k. k \<noteq> q) [0..<?n]))"
    by (simp add: distinct_map inj_on_def)
  have "map order R = map int (filter (\<lambda>k. k \<noteq> q) [0..<?n])"
    by (rule sorted_distinct_set_unique [OF sR dR sL dL eqs])
  then show ?thesis by (simp only: filter_upt_neq [OF q(1)] q(2) nat_int)
qed

lemma getAreaById_SomeD:
  "getAreaById d a = Some del \<Longrightarrow> del \<in> set (storage_areas d) \<and> areaId del = a"
  by (auto simp: getAreaById_def find_Some_iff)

lemma key_eq_iff:
  "distinct (map f xs) \<Longrightarrow> x \<in> set xs \<Longrightarrow> y \<in> set xs \<Longrightarrow> (f x = f y) = (x = y)"
  by (auto simp: distinct_map inj_on_def)

lemma by_index_survivor:
  assumes perm: "orders_permutation as" and del: "del \<in> set as"
    and dR: "distinct (map areaId R)"
    and R: "R = sort_key order (filter (\<lambda>x. order x \<noteq> order del) as)"
    and x: "x \<in> set R"
  shows "by_index (map areaId R) x = (if order del < order x then x\<lparr>order := order x - 1\<rparr> else x)"
proof -
  let ?n = "length as"
  let ?q = "nat (order del)"
  have os: "set (map order as) = int ` {0..<?n}" by (rule orders_set [OF perm])
  have "order del \<in> int ` {0..<?n}" using del os by auto
  then have q: "?q < ?n" "order del = int ?q" by auto
  have ranks: "map order R = map int ([0..<?q] @ [Suc ?q..<?n])"
    unfolding R by (rule survivors_ranks [OF perm del])
  have "length (map order R) = length (map int ([0..<?q] @ [Suc ?q..<?n]))"
    by (simp only: ranks)
  then have len: "length R = ?n - 1" using q(1) by simp
  obtain j where j: "j < length R" "R ! j = x"
    using x by (auto simp: in_set_conv_nth)
  have "index_of (map areaId R) (map areaId R ! j) = j"
    using index_of_nth [OF dR, of j] j(1) by simp
  then have idx: "index_of (map areaId R) (areaId x) = j"
    using j by simp
  have "order x = map order R ! j" using j by simp
  also have "\<dots> = int (([0..<?q] @ [Suc ?q..<?n]) ! j)"
  proof -
    have "length ([0..<?q] @ [Suc ?q..<?n]) = ?n - 1" using q(1) by simp
    then have "j < length ([0..<?q] @ [Suc ?q..<?n])" using j(1) len by simp
    then show ?thesis by (simp only: ranks nth_map)
  qed
  also have "\<dots> = int (if j < ?q then j else Suc j)"
    using nth_skip [OF q(1), of j] j(1) len by simp
  finally have ox: "order x = int (if j < ?q then j else Suc j)" .
  show ?thesis
  proof (cases "j < ?q")
    case True
    then have "order x = int j" "\<not> order del < order x" using ox q(2) by auto
    then show ?thesis by (simp add: by_index_def idx)
  next
    case False
    then have "order x = int j + 1" "order del < order x" using ox q(2) by auto
    then show ?thesis by (simp add: by_index_def idx)
  qed
qed

text \<open>The table that the deletion leaves: the ranks above the deleted one move down by
  one.\<close>

lemma deleteArea_table:
  assumes dist: "distinct (map areaId (storage_areas d))"
    and perm: "orders_permutation (storage_areas d)"
    and g: "getAreaById d a = Some del"
  shows "storage_areas (snd (deleteArea a d))
     = map (\<lambda>x. if order del < order x then x\<lparr>order := order x - 1\<rparr> else x)
         (filter (\<lambda>x. areaId x \<noteq> a) (storage_areas d))"
proof -
  let ?as = "storage_areas d"
  let ?as1 = "filter (\<lambda>x. areaId x \<noteq> a) ?as"
  let ?R = "sort_key order ?as1"
  have del: "del \<in> set ?as" "areaId del = a"
    using getAreaById_SomeD [OF g] by simp_all
  have od: "distinct (map order ?as)" by (rule orders_distinct [OF perm])
  have "(areaId x \<noteq> a) = (order x \<noteq> order del)" if "x \<in> set ?as" for x
    using key_eq_iff [OF dist that del(1)] key_eq_iff [OF od that del(1)] del(2) by simp
  then have as1: "?as1 = filter (\<lambda>x. order x \<noteq> order del) ?as"
    by (intro filter_cong refl)
  have found: "getAreaById d a \<noteq> None" using g by simp
  have d1: "distinct (map areaId ?as1)"
    using dist by (simp add: distinct_map_filter)
  have mids: "mset (map areaId ?R) = mset (map areaId ?as1)" by simp
  have dR: "distinct (map areaId ?R)" using d1 mids by (metis mset_eq_imp_distinct_iff)
  have sub: "set (map areaId ?as1) \<subseteq> set (map areaId ?R)" by simp
  have "storage_areas (snd (deleteArea a d)) = map (renumber (enumerate 0 (map areaId ?R))) ?as1"
    by (simp add: deleteArea_found [OF found] reorderAreas_map)
  also have "\<dots> = map (by_index (map areaId ?R)) ?as1"
    by (rule map_renumber_by_index [OF dR sub])
  also have "\<dots> = map (\<lambda>x. if order del < order x then x\<lparr>order := order x - 1\<rparr> else x) ?as1"
  proof (rule map_cong [OF refl])
    fix x assume "x \<in> set ?as1"
    then have x: "x \<in> set ?R" by simp
    have R: "?R = sort_key order (filter (\<lambda>x. order x \<noteq> order del) ?as)"
      by (simp only: as1)
    show "by_index (map areaId ?R) x = (if order del < order x then x\<lparr>order := order x - 1\<rparr> else x)"
      by (rule by_index_survivor [OF perm del(1) dR R x])
  qed
  finally show ?thesis .
qed

text \<open>
  C7. On a table of N areas with distinct ids whose ranks are \<open>0..N-1\<close>, deleting an
  existing area deletes exactly the items that reference it and removes its row; of the
  other rows, those ranked above the deleted area move down by one rank and nothing else
  changes, so that the ranks are exactly \<open>0..N-2\<close> and the areas keep their former
  display order; an unknown id is answered NotFound and the database is unchanged.
\<close>

theorem deleteArea_repacks:
  assumes dist: "distinct (map areaId (storage_areas d))"
    and perm: "orders_permutation (storage_areas d)"
  shows "(\<forall>del. getAreaById d a = Some del \<longrightarrow>
            fst (deleteArea a d) = Inr ()
            \<and> items (snd (deleteArea a d)) = filter (\<lambda>r. storageAreaId r \<noteq> a) (items d)
            \<and> storage_areas (snd (deleteArea a d))
                = map (\<lambda>x. if order del < order x then x\<lparr>order := order x - 1\<rparr> else x)
                    (filter (\<lambda>x. areaId x \<noteq> a) (storage_areas d))
            \<and> mset (map order (storage_areas (snd (deleteArea a d))))
                = mset (map int [0..<length (storage_areas d) - 1])
            \<and> getAllAreas (snd (deleteArea a d))
                = map (\<lambda>(k, x). x\<lparr>order := int k\<rparr>)
                    (enumerate 0 (filter (\<lambda>x. areaId x \<noteq> a) (getAllAreas d)))
            \<and> map order (getAllAreas (snd (deleteArea a d)))
                = map int [0..<length (storage_areas d) - 1]
            \<and> map areaId (getAllAreas (snd (deleteArea a d)))
                = filter (\<lambda>i. i \<noteq> a) (map areaId (getAllAreas d)))
       \<and> (getAreaById d a = None \<longrightarrow> deleteArea a d = (Inl NotFound, d))"
proof (intro conjI impI allI)
  assume "getAreaById d a = None"
  then show "deleteArea a d = (Inl NotFound, d)"
    by (simp add: deleteArea_def)
next
  fix del
  assume g: "getAreaById d a = Some del"
  then have found: "getAreaById d a \<noteq> None" by simp
  let ?as1 = "filter (\<lambda>x. areaId x \<noteq> a) (storage_areas d)"
  let ?R = "sort_key order ?as1"
  let ?L = "map (\<lambda>(k, x). x\<lparr>order := int k\<rparr>) (enumerate 0 ?R)"
  have d1: "distinct (map areaId ?as1)"
    using dist by (simp add: distinct_map_filter)
  have del: "deleteArea a d =
    (Inr (), (d\<lparr>storage_areas := ?as1, items := filter (\<lambda>r. storageAreaId r \<noteq> a) (items d)\<rparr>)
               \<lparr>storage_areas := map (renumber (enumerate 0 (map areaId ?R))) ?as1\<rparr>)"
    by (simp add: deleteArea_found [OF found] reorderAreas_map)
  have R: "?R = filter (\<lambda>x. areaId x \<noteq> a) (getAllAreas d)"
    by (simp add: getAllAreas_def filter_sort)
  have all: "getAllAreas (snd (deleteArea a d)) = ?L"
    using reorder_display(1) [OF d1] by (simp add: del getAllAreas_def)
  have mem: "a \<in> set (map areaId (storage_areas d))"
    using found by (simp only: getAreaById_Some_iff)
  have len: "length ?R = length (storage_areas d) - 1"
    using length_filter_key [OF dist mem] by simp
  show "fst (deleteArea a d) = Inr ()"
    by (simp add: del)
  show "items (snd (deleteArea a d)) = filter (\<lambda>r. storageAreaId r \<noteq> a) (items d)"
    by (simp add: del)
  show "storage_areas (snd (deleteArea a d))
          = map (\<lambda>x. if order del < order x then x\<lparr>order := order x - 1\<rparr> else x) ?as1"
    by (rule deleteArea_table [OF dist perm g])
  have "orders_permutation (storage_areas (snd (deleteArea a d)))"
    using reorder_display(2) [OF d1] by (simp add: del)
  then show "mset (map order (storage_areas (snd (deleteArea a d))))
                = mset (map int [0..<length (storage_areas d) - 1])"
    using len by (simp add: orders_permutation_def del)
  show "getAllAreas (snd (deleteArea a d))
          = map (\<lambda>(k, x). x\<lparr>order := int k\<rparr>)
              (enumerate 0 (filter (\<lambda>x. areaId x \<noteq> a) (getAllAreas d)))"
    using all by (simp only: R)
  show "map order (getAllAreas (snd (deleteArea a d))) = map int [0..<length (storage_areas d) - 1]"
    using order_enumerate [of 0 ?R] by (simp only: all len) simp
  have "map areaId ?L = map areaId ?R"
    by (rule nth_equalityI) (simp_all add: nth_enumerate_eq)
  also have "\<dots> = filter (\<lambda>i. i \<noteq> a) (map areaId (getAllAreas d))"
    by (simp add: R filter_map comp_def)
  finally show "map areaId (getAllAreas (snd (deleteArea a d)))
                = filter (\<lambda>i. i \<noteq> a) (map areaId (getAllAreas d))"
    by (simp only: all)
qed

theorem deleteArea_repacks_witness:
  "distinct (map areaId (storage_areas ex_db3))
   \<and> orders_permutation (storage_areas ex_db3)
   \<and> getAreaById ex_db3 ''freezer''
       = Some \<lparr>areaId = ''freezer'', areaName = ''Freezer'', icon = ''snowflake'', color = ''blue'', order = 1\<rparr>
   \<and> items (snd (deleteArea ''freezer'' ex_db3)) = [ex_item ''a'' ''Milk'' 3 None]
   \<and> storage_areas (snd (deleteArea ''freezer'' ex_db3))
       = [\<lparr>areaId = ''fridge'', areaName = ''Fridge'', icon = ''refrigerator'', color = ''cyan'', order = 1\<rparr>,
          \<lparr>areaId = ''pantry'', areaName = ''Pantry'', icon = ''warehouse'', color = ''amber'', order = 2\<rparr>,
          \<lparr>areaId = ''cellar'', areaName = ''Cellar'', icon = ''box'', color = ''slate'', order = 0\<rparr>]
   \<and> map areaId (getAllAreas (snd (deleteArea ''freezer'' ex_db3))) = [''cellar'', ''fridge'', ''pantry'']
   \<and> map order (getAllAreas (snd (deleteArea ''freezer'' ex_db3))) = [0, 1, 2]
   \<and> getAreaById ex_db3 ''attic'' = None
   \<and> deleteArea ''attic'' ex_db3 = (Inl NotFound, ex_db3)"
proof -
  let ?del = "\<lparr>areaId = ''freezer'', areaName = ''Freezer'', icon = ''snowflake'', color = ''blue'', order = 1\<rparr>"
  have dist: "distinct (map areaId (storage_areas ex_db3))" by code_simp
  have perm: "orders_permutation (storage_areas ex_db3)" by code_simp
  have f: "getAreaById ex_db3 ''freezer'' = Some ?del" by code_simp
  have n: "getAreaById ex_db3 ''attic'' = None" by code_simp
  note t = deleteArea_repacks [OF dist perm]
  from t [of "''freezer''"] f
  have i: "items (snd (deleteArea ''freezer'' ex_db3)) = filter (\<lambda>r. storageAreaId r \<noteq> ''freezer'') (items ex_db3)"
    and s: "storage_areas (snd (deleteArea ''freezer'' ex_db3))
             = map (\<lambda>x. if order ?del < order x then x\<lparr>order := order x - 1\<rparr> else x)
                 (filter (\<lambda>x. areaId x \<noteq> ''freezer'') (storage_areas ex_db3))"
    and o: "map order (getAllAreas (snd (deleteArea ''freezer'' ex_db3))) = map int [0..<length (storage_areas ex_db3) - 1]"
    and a: "map areaId (getAllAreas (snd (deleteArea ''freezer'' ex_db3))) = filter (\<lambda>i. i \<noteq> ''freezer'') (map areaId (getAllAreas ex_db3))"
    by blast+
  have i': "filter (\<lambda>r. storageAreaId r \<noteq> ''freezer'') (items ex_db3) = [ex_item ''a'' ''Milk'' 3 None]"
    by code_simp
  have s': "map (\<lambda>x. if order ?del < order x then x\<lparr>order := order x - 1\<rparr> else x)
                 (filter (\<lambda>x. areaId x \<noteq> ''freezer'') (storage_areas ex_db3))
       = [\<lparr>areaId = ''fridge'', areaName = ''Fridge'', icon = ''refrigerator'', color = ''cyan'', order = 1\<rparr>,
          \<lparr>areaId = ''pantry'', areaName = ''Pantry'', icon = ''warehouse'', color = ''amber'', order = 2\<rparr>,
          \<lparr>areaId = ''cellar'', areaName = ''Cellar'', icon = ''box'', color = ''slate'', order = 0\<rparr>]"
    by code_simp
  have o': "map int [0..<length (storage_areas ex_db3) - 1] = [0, 1, 2]"
    by code_simp
  have a': "filter (\<lambda>i. i \<noteq> ''freezer'') (map areaId (getAllAreas ex_db3)) = [''cellar'', ''fridge'', ''pantry'']"
    by code_simp
  from t [of "''attic''"] n
  have nf: "deleteArea ''attic'' ex_db3 = (Inl NotFound, ex_db3)"
    by blast
  show ?thesis
    using dist perm f n nf i s o a unfolding i' s' o' a' by blast
qed

section \<open>The rank invariant\<close>

lemma deleteArea_inv:
  assumes dist: "distinct (map areaId (storage_areas d))"
  shows "areas_inv (snd (deleteArea a d)) \<or> snd (deleteArea a d) = d"
proof (cases "getAreaById d a")
  case None
  then show ?thesis by (simp add: deleteArea_def)
next
  case (Some x)
  then have found: "getAreaById d a \<noteq> None" by simp
  let ?as1 = "filter (\<lambda>x. areaId x \<noteq> a) (storage_areas d)"
  let ?R = "sort_key order ?as1"
  have d1: "distinct (map areaId ?as1)"
    using dist by (simp add: distinct_map_filter)
  have st: "storage_areas (snd (deleteArea a d)) = map (renumber (enumerate 0 (map areaId ?R))) ?as1"
    by (simp add: deleteArea_found [OF found] reorderAreas_map)
  have mids: "mset (map areaId ?R) = mset (map areaId ?as1)" by simp
  have dR: "distinct (map areaId ?R)" using d1 mids by (metis mset_eq_imp_distinct_iff)
  have sub: "set (map areaId ?as1) \<subseteq> set (map areaId ?R)" by simp
  have "map areaId (map (renumber (enumerate 0 (map areaId ?R))) ?as1) = map areaId ?as1"
    unfolding map_renumber_by_index [OF dR sub] by (simp add: by_index_def comp_def)
  then have "distinct (map areaId (storage_areas (snd (deleteArea a d))))"
    using d1 by (simp only: st)
  moreover have "orders_permutation (storage_areas (snd (deleteArea a d)))"
    unfolding st by (rule reorder_display(2) [OF d1])
  ultimately show ?thesis by (simp add: areas_inv_def)
qed

lemma getMaxOrder_perm:
  assumes p: "orders_permutation (storage_areas d)"
  shows "(case getMaxOrder d of None \<Rightarrow> - 1 | Some m \<Rightarrow> m) + 1 = int (length (storage_areas d))"
proof (cases "storage_areas d")
  case Nil
  then show ?thesis by (simp add: getMaxOrder_def)
next
  case (Cons x xs)
  let ?n = "length (storage_areas d)"
  have n: "0 < ?n" using Cons by simp
  have l: "order x # map order xs = map order (storage_areas d)"
    by (simp add: Cons)
  have "fold max (map order xs) (order x) = Max (set (order x # map order xs))"
    by (rule Max.set_eq_fold [symmetric])
  also have "\<dots> = Max (int ` {0..<?n})"
    by (simp only: l orders_set [OF p])
  also have "\<dots> = int (?n - 1)"
    using n by (intro Max_eqI) auto
  finally have "getMaxOrder d = Some (int (?n - 1))"
    by (simp add: getMaxOrder_def Cons)
  then show ?thesis using n by simp
qed

lemma orders_permutation_snoc:
  assumes "orders_permutation as" "order x = int (length as)"
  shows "orders_permutation (as @ [x])"
  using assms by (simp add: orders_permutation_def)

lemma createArea_inv:
  assumes inv: "areas_inv d"
  shows "areas_inv (snd (createArea e nm ic co d))"
proof -
  let ?new = "\<lparr>areaId = generateId e, areaName = trim nm, icon = ic, color = co,
               order = int (length (storage_areas d))\<rparr>"
  have p: "orders_permutation (storage_areas d)" using inv by (simp add: areas_inv_def)
  have c: "snd (createArea e nm ic co d) = d
           \<or> (generateId e \<notin> set (map areaId (storage_areas d))
               \<and> snd (createArea e nm ic co d) = d\<lparr>storage_areas := storage_areas d @ [?new]\<rparr>)"
    by (auto simp: createArea_def Let_def getMaxOrder_perm [OF p] insertArea_def)
  then show ?thesis
  proof
    assume "snd (createArea e nm ic co d) = d"
    then show ?thesis using inv by simp
  next
    assume a: "generateId e \<notin> set (map areaId (storage_areas d))
               \<and> snd (createArea e nm ic co d) = d\<lparr>storage_areas := storage_areas d @ [?new]\<rparr>"
    have "orders_permutation (storage_areas d @ [?new])"
      by (rule orders_permutation_snoc [OF p]) simp
    then show ?thesis using a inv by (simp add: areas_inv_def)
  qed
qed

lemma find_key_unique:
  "distinct (map f xs) \<Longrightarrow> find (\<lambda>x. f x = a) xs = Some r \<Longrightarrow> x \<in> set xs \<Longrightarrow> f x = a \<Longrightarrow> x = r"
  by (induction xs) (auto simp: image_iff split: if_splits)

lemma updateArea_inv:
  assumes inv: "areas_inv d" and o: "upd_order rq = None"
  shows "areas_inv (snd (updateArea a rq d))"
proof (cases "getAreaById d a")
  case None
  then show ?thesis using inv by (simp add: updateArea_def)
next
  case (Some existing)
  have dist: "distinct (map areaId (storage_areas d))" using inv by (simp add: areas_inv_def)
  let ?f = "\<lambda>x. if areaId x = a
                 then x\<lparr>areaName := or_else (map_option trim (upd_name rq)) (areaName existing),
                        icon := or_else (upd_icon rq) (icon existing),
                        color := or_else (upd_color rq) (color existing),
                        order := order existing\<rparr>
                 else x"
  have st: "storage_areas (snd (updateArea a rq d)) = map ?f (storage_areas d)"
    using Some o by (simp add: updateArea_def updateAreaRow_def Let_def)
  have ids: "map areaId (map ?f (storage_areas d)) = map areaId (storage_areas d)"
    by (simp add: comp_def)
  have "order (?f x) = order x" if "x \<in> set (storage_areas d)" for x
  proof (cases "areaId x = a")
    case True
    then have "x = existing"
      using find_key_unique [OF dist, of a existing x] Some that by (simp add: getAreaById_def)
    then show ?thesis by simp
  next
    case False
    then show ?thesis by simp
  qed
  then have ords: "map order (map ?f (storage_areas d)) = map order (storage_areas d)"
    by (simp add: comp_def)
  show ?thesis
    using inv ids ords unfolding areas_inv_def orders_permutation_def st
    by (metis length_map)
qed

lemma reorderBatch_inv:
  assumes inv: "areas_inv d" and m: "mset ids = mset (map areaId (storage_areas d))"
  shows "areas_inv (snd (reorderBatch ids d))"
proof -
  have dist: "distinct (map areaId (storage_areas d))" using inv by (simp add: areas_inv_def)
  have di: "distinct ids" using dist m by (metis mset_eq_imp_distinct_iff)
  have sub: "set (map areaId (storage_areas d)) \<subseteq> set ids" using m by (metis mset_eq_setD subset_refl)
  have st: "storage_areas (snd (reorderBatch ids d)) = map (by_index ids) (storage_areas d)"
    by (simp add: reorderBatch_def Let_def reorderAreas_map map_renumber_by_index [OF di sub])
  have "map areaId (map (by_index ids) (storage_areas d)) = map areaId (storage_areas d)"
    by (simp add: by_index_def comp_def)
  then have "distinct (map areaId (storage_areas (snd (reorderBatch ids d))))"
    using dist by (simp only: st)
  moreover have "orders_permutation (storage_areas (snd (reorderBatch ids d)))"
    unfolding st by (rule orders_by_index [OF dist m])
  ultimately show ?thesis by (simp add: areas_inv_def)
qed

lemma initDb_inv:
  assumes inv: "areas_inv d"
  shows "\<exists>d'. initDb d = Some d' \<and> areas_inv d'"
proof (cases "storage_areas d")
  case Nil
  then have "initDb d = Some (d\<lparr>storage_areas := DEFAULT_STORAGE_AREAS\<rparr>)"
    by (simp add: initDb_def insertArea_def DEFAULT_STORAGE_AREAS_def)
  moreover have "areas_inv (d\<lparr>storage_areas := DEFAULT_STORAGE_AREAS\<rparr>)"
    by (simp add: areas_inv_def orders_permutation_def DEFAULT_STORAGE_AREAS_def upt_rec)
  ultimately show ?thesis by blast
next
  case (Cons x xs)
  then show ?thesis using inv by (simp add: initDb_def)
qed

text \<open>
  C8, amended. From a state with distinct area ids whose ranks are a permutation of
  \<open>0..count-1\<close>, each of these leads to such a state again: creating an area, updating
  an area without an \<open>order\<close> field, deleting an area, reordering with an id sequence
  that is a permutation of the stored ids, and the seeding at initialisation.
\<close>

theorem order_invariant_preserved:
  assumes inv: "areas_inv d"
  shows "areas_inv (snd (createArea e nm ic co d))
     \<and> (upd_order rq = None \<longrightarrow> areas_inv (snd (updateArea a rq d)))
     \<and> areas_inv (snd (deleteArea b d))
     \<and> (mset ids = mset (map areaId (storage_areas d)) \<longrightarrow> areas_inv (snd (reorderBatch ids d)))
     \<and> (\<exists>d'. initDb d = Some d' \<and> areas_inv d')"
proof -
  have dist: "distinct (map areaId (storage_areas d))" using inv by (simp add: areas_inv_def)
  have del: "areas_inv (snd (deleteArea b d))"
    using deleteArea_inv [OF dist, of b] inv by auto
  show ?thesis
    using createArea_inv [OF inv] updateArea_inv [OF inv] del reorderBatch_inv [OF inv] initDb_inv [OF inv]
    by blast
qed

theorem order_invariant_preserved_witness:
  "areas_inv ex_db
   \<and> areas_inv (snd (createArea (ex_env ''n1'' 5000) ''Cellar'' ''box'' ''slate'' ex_db))
   \<and> upd_order \<lparr>upd_name = Some ''Cold'', upd_icon = None, upd_color = None, upd_order = None\<rparr> = None
   \<and> areas_inv (snd (updateArea ''fridge''
        \<lparr>upd_name = Some ''Cold'', upd_icon = None, upd_color = None, upd_order = None\<rparr> ex_db))
   \<and> areas_inv (snd (deleteArea ''freezer'' ex_db))
   \<and> mset [''pantry'', ''fridge'', ''freezer''] = mset (map areaId (storage_areas ex_db))
   \<and> areas_inv (snd (reorderBatch [''pantry'', ''fridge'', ''freezer''] ex_db))
   \<and> (\<exists>d'. initDb ex_db = Some d' \<and> areas_inv d')"
proof -
  have inv: "areas_inv ex_db" by code_simp
  have u: "upd_order \<lparr>upd_name = Some ''Cold'', upd_icon = None, upd_color = None, upd_order = None\<rparr> = None"
    by simp
  have m: "mset [''pantry'', ''fridge'', ''freezer''] = mset (map areaId (storage_areas ex_db))"
    by code_simp
  show ?thesis
    using inv u m
      order_invariant_preserved [OF inv,
        where e = "ex_env ''n1'' 5000" and nm = "''Cellar''" and ic = "''box''" and co = "''slate''"
          and rq = "\<lparr>upd_name = Some ''Cold'', upd_icon = None, upd_color = None, upd_order = None\<rparr>"
          and a = "''fridge''" and b = "''freezer''"
          and ids = "[''pantry'', ''fridge'', ''freezer'']"]
    by blast
qed

text \<open>Reordering with a partial id sequence and updating with an explicit
  \<open>order\<close> both break the invariant.\<close>

theorem order_invariant_counterexample:
  "areas_inv ex_db
   \<and> \<not> areas_inv (snd (reorderBatch [''freezer''] ex_db))
   \<and> map order (storage_areas (snd (reorderBatch [''freezer''] ex_db))) = [0, 0, 2]
   \<and> \<not> areas_inv (snd (updateArea ''fridge''
            \<lparr>upd_name = None, upd_icon = None, upd_color = None, upd_order = Some 5\<rparr> ex_db))
   \<and> map order (storage_areas (snd (updateArea ''fridge''
            \<lparr>upd_name = None, upd_icon = None, upd_color = None, upd_order = Some 5\<rparr> ex_db))) = [5, 1, 2]"
  by code_simp

end
